theory Spec2Isabelle
  imports Complex_Main "HOL-Library.Product_Lexorder" "HOL-Library.AList" "HOL-Library.Multiset"
begin

section \<open>Python values and failures\<close>

text \<open>
  The two scripts are Python. Their floats are modelled as exact reals: rounding,
  infinities and NaN of IEEE doubles are not part of the model; an integer that
  \<open>float\<close> refuses to convert is. A \<open>raise\<close> of the source is a value \<open>Inl e\<close> of
  the result type, a normal return is \<open>Inr v\<close>, and \<open>None\<close> of Python is \<open>None\<close>
  of an option type.
\<close>

datatype py_error =
    IndexError
  | ValueError
  | TypeError
  | ZeroDivisionError
  | KeyError

definition bind_err :: "'e + 'a \<Rightarrow> ('a \<Rightarrow> 'e + 'b) \<Rightarrow> 'e + 'b" where
  "bind_err r f = (case r of Inl e \<Rightarrow> Inl e | Inr v \<Rightarrow> f v)"

text \<open>\<open>xs[i]\<close>: a negative index counts from the end, an index outside the list raises.\<close>

definition subscript :: "'a list \<Rightarrow> int \<Rightarrow> py_error + 'a" where
  "subscript xs i =
     (if 0 \<le> i \<and> i < int (length xs) then Inr (xs ! nat i)
      else if i < 0 \<and> - int (length xs) \<le> i then Inr (xs ! nat (int (length xs) + i))
      else Inl IndexError)"

text \<open>\<open>int(x)\<close> on a float truncates towards zero.\<close>

definition py_int :: "real \<Rightarrow> int" where
  "py_int x = (if 0 \<le> x then \<lfloor>x\<rfloor> else \<lceil>x\<rceil>)"

text \<open>\<open>a / b\<close> raises on a zero divisor.\<close>

definition py_div :: "real \<Rightarrow> real \<Rightarrow> py_error + real" where
  "py_div a b = (if b = 0 then Inl ZeroDivisionError else Inr (a / b))"

subsection \<open>Text\<close>

text \<open>
  A \<open>str\<close> of Python is a sequence of Unicode code points. Where the code measures,
  slices or strips a text (URLs, devices, run ids, file names and paths, the cells of a
  tabular report) the text is the list of its code points, of type \<open>ustr\<close>, so that
  \<open>s[:150]\<close> is \<open>take 150\<close> and \<open>strip\<close> sees every white space character;
  \<open>ucs\<close> gives the code points of a literal written in ASCII. Where the code only
  compares a text, joins it to others or asks whether it is empty (dictionary keys,
  labels, metric names, the texts inside a report, error messages) the text is a
  \<open>string\<close>, which for a text outside ASCII holds the bytes of its UTF-8 encoding:
  these operations give the same result on the bytes as on the code points.
\<close>

type_synonym ustr = "nat list"

definition ucs :: "string \<Rightarrow> ustr" where
  "ucs s = map of_char s"

text \<open>\<open>s.endswith(suf)\<close>, \<open>s.startswith(pre)\<close>, and \<open>s[:-k]\<close> for a positive \<open>k\<close>.\<close>

definition endswith :: "'a list \<Rightarrow> 'a list \<Rightarrow> bool" where
  "endswith s suf = (length suf \<le> length s \<and> drop (length s - length suf) s = suf)"

definition startswith :: "'a list \<Rightarrow> 'a list \<Rightarrow> bool" where
  "startswith s pre = (take (length pre) s = pre)"

definition drop_last :: "nat \<Rightarrow> 'a list \<Rightarrow> 'a list" where
  "drop_last k s = take (length s - k) s"

text \<open>
  \<open>c.isspace()\<close>, the characters \<open>s.strip()\<close> removes at both ends: the white space
  of ASCII, U+0085, U+00A0 and the space characters of the other Unicode blocks.
\<close>

definition is_space :: "nat \<Rightarrow> bool" where
  "is_space c =
     (c \<in> set [0x09, 0x0A, 0x0B, 0x0C, 0x0D, 0x1C, 0x1D, 0x1E, 0x1F, 0x20, 0x85, 0xA0,
        0x1680, 0x2000, 0x2001, 0x2002, 0x2003, 0x2004, 0x2005, 0x2006, 0x2007, 0x2008,
        0x2009, 0x200A, 0x2028, 0x2029, 0x202F, 0x205F, 0x3000])"

definition strip :: "ustr \<Rightarrow> ustr" where
  "strip s = rev (dropWhile is_space (rev (dropWhile is_space s)))"

text \<open>\<open>str(n)\<close> for a natural number, a text of ASCII digits.\<close>

definition digit_char :: "nat \<Rightarrow> char" where
  "digit_char d = ''0123456789'' ! d"

fun str_nat :: "nat \<Rightarrow> string" where
  "str_nat n = (if n < 10 then [digit_char n] else str_nat (n div 10) @ [digit_char (n mod 10)])"

declare str_nat.simps [simp del]

section \<open>python3-1.py: statistics and grading\<close>

text \<open>\<open>[x for x in xs if x is not None]\<close>\<close>

definition available :: "'a option list \<Rightarrow> 'a list" where
  "available xs = map the (filter (\<lambda>x. x \<noteq> None) xs)"

definition THRESHOLDS :: "(string \<times> (real \<times> real)) list" where
  "THRESHOLDS =
     [(''LCP'', (2500, 4000)),
      (''INP'', (200, 500)),
      (''CLS'', (1 / 10, 25 / 100)),
      (''TBT'', (200, 600)),
      (''FCP'', (1800, 3000)),
      (''TTFB'', (800, 1800))]"

text \<open>
  \<open>grade\<close> returns one of the four labels \<open>GOOD\<close>, \<open>NI\<close>, \<open>POOR\<close>, \<open>N/A\<close>;
  \<open>NI\<close> is the label the source writes for "needs improvement".
\<close>

definition grade :: "string \<Rightarrow> real option \<Rightarrow> string" where
  "grade metric val =
     (case val of
        None \<Rightarrow> ''N/A''
      | Some v \<Rightarrow>
          (case map_of THRESHOLDS metric of
             None \<Rightarrow> ''N/A''
           | Some (good, ni) \<Rightarrow>
               if v \<le> good then ''GOOD''
               else if v \<le> ni then ''NI''
               else ''POOR''))"

definition median :: "real option list \<Rightarrow> py_error + real option" where
  "median xs0 =
     (let xs = available xs0 in
      if xs = [] then Inr None
      else
        let xs = sort xs; n = int (length xs); mid = n div 2 in
        if n mod 2 = 1 then bind_err (subscript xs mid) (\<lambda>v. Inr (Some v))
        else
          bind_err (subscript xs (mid - 1)) (\<lambda>a.
          bind_err (subscript xs mid) (\<lambda>b.
          Inr (Some ((a + b) / 2)))))"

definition percentile :: "real option list \<Rightarrow> real \<Rightarrow> py_error + real option" where
  "percentile xs0 p =
     (let xs = available xs0 in
      if xs = [] then Inr None
      else
        let xs = sort xs in
        if length xs = 1 then bind_err (subscript xs 0) (\<lambda>v. Inr (Some v))
        else
        let idx = real_of_int (int (length xs) - 1) * p;
            lo = py_int idx;
            hi = min (lo + 1) (int (length xs) - 1);
            frac = idx - real_of_int lo
        in
          bind_err (subscript xs lo) (\<lambda>a.
          bind_err (subscript xs hi) (\<lambda>b.
          Inr (Some (a + (b - a) * frac)))))"

section \<open>python3-1.py: the raw report and the metric extractor\<close>

text \<open>
  What \<open>json.load\<close> returns: \<open>None\<close>, a \<open>bool\<close>, an \<open>int\<close>, a \<open>float\<close>, a
  \<open>str\<close>, a \<open>list\<close> or a \<open>dict\<close> with string keys. A \<open>dict\<close> is kept as the list of
  its items, each key once.
\<close>

datatype json =
    JNull
  | JBool bool
  | JInt int
  | JFloat real
  | JStr string
  | JArr "json list"
  | JObj "(string \<times> json) list"

text \<open>
  What the extractor raises: \<open>AttributeError\<close> with its message, from \<open>get\<close>
  on an object that is no \<open>dict\<close>, and \<open>OverflowError\<close>, from \<open>float\<close> on an
  \<open>int\<close> too large for a double.
\<close>

datatype lhr_error = AttributeError string | OverflowError

fun type_name :: "json \<Rightarrow> string" where
  "type_name JNull = ''NoneType''"
| "type_name (JBool b) = ''bool''"
| "type_name (JInt i) = ''int''"
| "type_name (JFloat r) = ''float''"
| "type_name (JStr s) = ''str''"
| "type_name (JArr xs) = ''list''"
| "type_name (JObj kvs) = ''dict''"

text \<open>The truth value of an object, as \<open>or\<close> and \<open>if\<close> take it.\<close>

fun truthy :: "json \<Rightarrow> bool" where
  "truthy JNull = False"
| "truthy (JBool b) = b"
| "truthy (JInt i) = (i \<noteq> 0)"
| "truthy (JFloat r) = (r \<noteq> 0)"
| "truthy (JStr s) = (s \<noteq> [])"
| "truthy (JArr xs) = (xs \<noteq> [])"
| "truthy (JObj kvs) = (kvs \<noteq> [])"

text \<open>\<open>x or y\<close>, \<open>x or {}\<close> and \<open>x or []\<close>.\<close>

definition py_or :: "json \<Rightarrow> json \<Rightarrow> json" where
  "py_or x y = (if truthy x then x else y)"

definition or_dict :: "json \<Rightarrow> json" where
  "or_dict x = py_or x (JObj [])"

definition or_list :: "json \<Rightarrow> json" where
  "or_list x = py_or x (JArr [])"

text \<open>\<open>d.get(k)\<close> on a \<open>dict\<close> whose items are \<open>kvs\<close>.\<close>

definition dict_get :: "(string \<times> json) list \<Rightarrow> string \<Rightarrow> json" where
  "dict_get kvs k = (case map_of kvs k of None \<Rightarrow> JNull | Some v \<Rightarrow> v)"

text \<open>
  \<open>x.get(k)\<close> on any object: only a \<open>dict\<close> has the method, every other object
  raises \<open>AttributeError\<close>.
\<close>

definition no_get_message :: "json \<Rightarrow> string" where
  "no_get_message v =
     [CHR 0x27] @ type_name v @ [CHR 0x27] @ '' object has no attribute ''
       @ [CHR 0x27] @ ''get'' @ [CHR 0x27]"

fun get :: "json \<Rightarrow> string \<Rightarrow> lhr_error + json" where
  "get (JObj kvs) k = Inr (dict_get kvs k)"
| "get v k = Inl (AttributeError (no_get_message v))"

text \<open>
  The value of an object for which \<open>isinstance(v, (int, float))\<close> holds, as the
  comparisons \<open>v == 0\<close> and \<open>v > bound\<close> take it, and \<open>None\<close> for every other
  object. A \<open>bool\<close> is an \<open>int\<close> in Python, \<open>True\<close> being 1. Python compares an
  \<open>int\<close> of any size exactly.
\<close>

fun numeric :: "json \<Rightarrow> real option" where
  "numeric (JInt i) = Some (real_of_int i)"
| "numeric (JFloat r) = Some r"
| "numeric (JBool b) = Some (if b then 1 else 0)"
| "numeric v = None"

text \<open>\<open>v == 0\<close>\<close>

definition eq_zero :: "json \<Rightarrow> bool" where
  "eq_zero v = (numeric v = Some 0)"

text \<open>
  \<open>float(i)\<close> on an \<open>int\<close> raises \<open>OverflowError\<close> when \<open>i\<close> rounds to a
  magnitude of \<open>2^1024\<close> or more, that is from \<open>2^1024 - 2^970\<close> on.
\<close>

definition too_large :: "int \<Rightarrow> bool" where
  "too_large i = (2 ^ 1024 - 2 ^ 970 \<le> \<bar>i\<bar>)"

text \<open>\<open>float(v) if isinstance(v, (int, float)) else None\<close>\<close>

fun to_float :: "json \<Rightarrow> lhr_error + real option" where
  "to_float (JInt i) = (if too_large i then Inl OverflowError else Inr (Some (real_of_int i)))"
| "to_float (JFloat r) = Inr (Some r)"
| "to_float (JBool b) = Inr (Some (if b then 1 else 0))"
| "to_float v = Inr None"

definition audit_numeric :: "json \<Rightarrow> string \<Rightarrow> lhr_error + real option" where
  "audit_numeric lhr audit_id =
     bind_err (get lhr ''audits'') (\<lambda>audits.
     bind_err (get (or_dict audits) audit_id) (\<lambda>a.
     if \<not> truthy a then Inr None
     else bind_err (get a ''numericValue'') to_float))"

definition audit_items :: "json \<Rightarrow> string \<Rightarrow> lhr_error + json list" where
  "audit_items lhr audit_id =
     bind_err (get lhr ''audits'') (\<lambda>audits.
     bind_err (get (or_dict audits) audit_id) (\<lambda>a0.
     let a = or_dict a0 in
     bind_err (get a ''details'') (\<lambda>d0.
     let details = or_dict d0 in
     bind_err (get details ''items'') (\<lambda>i0.
     let items = or_list i0 in
     Inr (case items of JArr xs \<Rightarrow> xs | _ \<Rightarrow> [])))))"

text \<open>The expression \<open>(lhr.get("audits") or {}).get(audit_id) or {}\<close>.\<close>

definition audit_or_empty :: "json \<Rightarrow> string \<Rightarrow> lhr_error + json" where
  "audit_or_empty lhr audit_id =
     bind_err (get lhr ''audits'') (\<lambda>audits.
     bind_err (get (or_dict audits) audit_id) (\<lambda>a. Inr (or_dict a)))"

record lcp_element_info =
  selector :: json
  nodeLabel :: json
  snippet :: json
  element_url :: json

record rb_item =
  rb_url :: json
  resourceType :: json
  wastedMs :: json
  totalBytes :: json

record flag_set =
  lcpLazyLoaded :: bool
  needsPrioritizeLcpImage :: bool
  heavyBootup :: bool
  hasLongTasks :: bool
  heavyMainThread :: bool
  lotsUnusedJs :: bool

text \<open>
  The dictionary \<open>extract_metrics\<close> returns. The six timing fields carry the prefix
  \<open>m_\<close> (\<open>m_lcp\<close> is the key \<open>lcp\<close>). \<open>auditEvidence\<close> is a dictionary from audit id
  to a small dictionary, kept as its list of items; the folded metrics of
  \<open>run_url_repeats\<close> have no such key, which is the empty list here.
\<close>

record extracted_metrics =
  perfScore :: "real option"
  m_lcp :: "real option"
  m_inp :: "real option"
  m_cls :: "real option"
  m_tbt :: "real option"
  m_fcp :: "real option"
  m_ttfb :: "real option"
  lcpElement :: "lcp_element_info option"
  renderBlockingTop :: "rb_item list"
  flags :: flag_set
  auditEvidence :: "(string \<times> json) list"

definition lcp_element_info_of :: "json \<Rightarrow> lcp_element_info option" where
  "lcp_element_info_of lcp_element =
     (case lcp_element of
        JObj kvs \<Rightarrow>
          Some \<lparr>selector = dict_get kvs ''selector'',
                nodeLabel = dict_get kvs ''nodeLabel'',
                snippet = dict_get kvs ''snippet'',
                element_url =
                  py_or (py_or (dict_get kvs ''url'') (dict_get kvs ''sourceURL''))
                    (dict_get kvs ''requestUrl'')\<rparr>
      | _ \<Rightarrow> None)"

fun rb_top_of :: "json list \<Rightarrow> rb_item list" where
  "rb_top_of [] = []"
| "rb_top_of (JObj kvs # its) =
     \<lparr>rb_url = dict_get kvs ''url'', resourceType = dict_get kvs ''resourceType'',
      wastedMs = dict_get kvs ''wastedMs'', totalBytes = dict_get kvs ''totalBytes''\<rparr>
     # rb_top_of its"
| "rb_top_of (it # its) = rb_top_of its"

text \<open>\<open>isinstance(v, (int, float)) and v > bound\<close>\<close>

definition number_above :: "json \<Rightarrow> real \<Rightarrow> bool" where
  "number_above v bound = (case numeric v of None \<Rightarrow> False | Some x \<Rightarrow> bound < x)"

text \<open>
  \<open>extract_metrics\<close>, statement by statement. A \<open>get\<close> that the source writes twice on
  the same object (once for the evidence, once for the flag) is bound once.
\<close>

definition extract_metrics :: "json \<Rightarrow> lhr_error + extracted_metrics" where
  "extract_metrics lhr =
     bind_err (audit_numeric lhr ''largest-contentful-paint'') (\<lambda>lcp.
     bind_err (audit_numeric lhr ''cumulative-layout-shift'') (\<lambda>cls.
     bind_err (audit_numeric lhr ''total-blocking-time'') (\<lambda>tbt.
     bind_err (audit_numeric lhr ''first-contentful-paint'') (\<lambda>fcp.
     bind_err (audit_numeric lhr ''server-response-time'') (\<lambda>ttfb.
     bind_err (audit_numeric lhr ''interaction-to-next-paint'') (\<lambda>inp0.
     bind_err (if inp0 = None
               then audit_numeric lhr ''experimental-interaction-to-next-paint''
               else Inr inp0) (\<lambda>inp.
     bind_err (get lhr ''categories'') (\<lambda>cats0.
     bind_err (get (or_dict cats0) ''performance'') (\<lambda>perf0.
     bind_err (get (or_dict perf0) ''score'') (\<lambda>score.
     bind_err (to_float score) (\<lambda>perf_score.
     bind_err (audit_items lhr ''largest-contentful-paint-element'') (\<lambda>lcp_elem_items.
     let lcp_element = (case lcp_elem_items of [] \<Rightarrow> JNull | it # _ \<Rightarrow> it) in
     bind_err (audit_items lhr ''render-blocking-resources'') (\<lambda>rb_items.
     bind_err (audit_or_empty lhr ''lcp-lazy-loaded'') (\<lambda>lcp_lazy.
     bind_err (audit_or_empty lhr ''prioritize-lcp-image'') (\<lambda>prioritize.
     bind_err (audit_or_empty lhr ''bootup-time'') (\<lambda>bootup.
     bind_err (audit_or_empty lhr ''long-tasks'') (\<lambda>long_tasks.
     bind_err (audit_or_empty lhr ''mainthread-work-breakdown'') (\<lambda>mainthread.
     bind_err (audit_or_empty lhr ''unused-javascript'') (\<lambda>unused_js.
     bind_err (audit_or_empty lhr ''diagnostics'') (\<lambda>diagnostics.
     bind_err (audit_or_empty lhr ''third-party-summary'') (\<lambda>third_party.
     bind_err (get bootup ''numericValue'') (\<lambda>bootup_v.
     bind_err (get long_tasks ''details'') (\<lambda>lt_details.
     bind_err (get (or_dict lt_details) ''items'') (\<lambda>lt_items.
     bind_err (get mainthread ''numericValue'') (\<lambda>mt_v.
     bind_err (get unused_js ''details'') (\<lambda>uj_details.
     bind_err (get (or_dict uj_details) ''overallSavingsMs'') (\<lambda>savings_ms.
     bind_err (get diagnostics ''details'') (\<lambda>diag_details.
     bind_err (get third_party ''details'') (\<lambda>tp_details.
     bind_err (get (or_dict tp_details) ''items'') (\<lambda>tp_items.
     bind_err (get lcp_lazy ''score'') (\<lambda>lazy_score.
     bind_err (get prioritize ''score'') (\<lambda>prioritize_score.
     Inr \<lparr>perfScore = perf_score,
          m_lcp = lcp, m_inp = inp, m_cls = cls, m_tbt = tbt, m_fcp = fcp, m_ttfb = ttfb,
          lcpElement = lcp_element_info_of lcp_element,
          renderBlockingTop = rb_top_of (take 10 rb_items),
          flags =
            \<lparr>lcpLazyLoaded = eq_zero lazy_score,
             needsPrioritizeLcpImage = eq_zero prioritize_score,
             heavyBootup = number_above bootup_v 2000,
             hasLongTasks = (case or_list lt_items of JArr xs \<Rightarrow> 0 < length xs | _ \<Rightarrow> False),
             heavyMainThread = number_above mt_v 4000,
             lotsUnusedJs = number_above savings_ms 500\<rparr>,
          auditEvidence =
            [(''bootup-time'', JObj [(''numericValue'', bootup_v)]),
             (''long-tasks'', JObj [(''items'', lt_items)]),
             (''mainthread-work-breakdown'', JObj [(''numericValue'', mt_v)]),
             (''unused-javascript'', JObj [(''overallSavingsMs'', savings_ms)]),
             (''render-blocking-resources'', JObj [(''items'', JArr (take 10 rb_items))]),
             (''diagnostics'', JObj [(''details'', diag_details)]),
             (''third-party-summary'', JObj [(''items'', tp_items)])]\<rparr>
     ))))))))))))))))))))))))))))))))"

section \<open>python3-1.py: the issue list\<close>

text \<open>
  One entry of the issue list. The keys \<open>title\<close> and \<open>detail\<close> are display texts
  (fixed sentences and formatted numbers); the sort does not read them and they are left
  out here. The other keys carry the prefix \<open>i_\<close>.
\<close>

record issue =
  i_level :: string
  i_metric :: string
  i_value :: "real option"
  i_auditId :: "string option"
  i_evidence :: "json option"

text \<open>The inner function \<open>add_issue\<close>, as the entry it appends.\<close>

definition add_issue ::
  "(string \<times> json) list \<Rightarrow> string \<Rightarrow> string \<Rightarrow> real option \<Rightarrow> string option \<Rightarrow> issue"
where
  "add_issue audit_evidence level metric val audit_id =
     \<lparr>i_level = level, i_metric = metric, i_value = val, i_auditId = audit_id,
      i_evidence =
        (case audit_id of
           None \<Rightarrow> None
         | Some a \<Rightarrow> if a = [] then None else map_of audit_evidence a)\<rparr>"

text \<open>\<open>isinstance(v, (int, float)) and v > bound\<close> on a metric value.\<close>

definition above :: "real option \<Rightarrow> real \<Rightarrow> bool" where
  "above v bound = (case v of None \<Rightarrow> False | Some x \<Rightarrow> bound < x)"

text \<open>The rules of \<open>build_issue_list\<close> in the order of the source, before the sort.\<close>

definition fired_issues :: "extracted_metrics \<Rightarrow> issue list" where
  "fired_issues m =
     (let add = add_issue (auditEvidence m) in
      (if above (m_lcp m) 4000
       then [add ''HIGH'' ''LCP'' (m_lcp m) (Some ''largest-contentful-paint'')] else [])
      @ (if above (m_ttfb m) 1200
         then [add ''HIGH'' ''TTFB'' (m_ttfb m) (Some ''server-response-time'')] else [])
      @ (if above (m_inp m) 500
         then [add ''HIGH'' ''INP'' (m_inp m) (Some ''interaction-to-next-paint'')] else [])
      @ (if above (m_cls m) (25 / 100)
         then [add ''MED'' ''CLS'' (m_cls m) (Some ''cumulative-layout-shift'')] else [])
      @ (if above (m_tbt m) 600
         then [add ''MED'' ''TBT'' (m_tbt m) (Some ''total-blocking-time'')] else [])
      @ (if above (m_fcp m) 3000
         then [add ''MED'' ''FCP'' (m_fcp m) (Some ''first-contentful-paint'')] else [])
      @ (if lcpLazyLoaded (flags m)
         then [add ''HIGH'' ''LCP'' (m_lcp m) (Some ''lcp-lazy-loaded'')] else [])
      @ (if needsPrioritizeLcpImage (flags m)
         then [add ''HIGH'' ''LCP'' (m_lcp m) (Some ''prioritize-lcp-image'')] else [])
      @ (if renderBlockingTop m \<noteq> []
         then [add ''MED'' ''FCP'' None (Some ''render-blocking-resources'')] else [])
      @ (if heavyBootup (flags m)
         then [add ''MED'' ''TBT'' (m_tbt m) (Some ''bootup-time'')] else [])
      @ (if lotsUnusedJs (flags m)
         then [add ''LOW'' ''TBT'' None (Some ''unused-javascript'')] else []))"

text \<open>\<open>level_order.get(level, 99)\<close>\<close>

definition level_order :: "string \<Rightarrow> nat" where
  "level_order level =
     (if level = ''HIGH'' then 0 else if level = ''MED'' then 1
      else if level = ''LOW'' then 2 else 99)"

text \<open>\<open>x["value"] or 0\<close>: \<open>None\<close> gives 0, and so does the value 0.0.\<close>

definition value_or_0 :: "issue \<Rightarrow> real" where
  "value_or_0 x = (case i_value x of None \<Rightarrow> 0 | Some v \<Rightarrow> v)"

text \<open>
  The key of the sort, a pair compared first on its left component. \<open>list.sort\<close> is
  stable, as \<open>sort_key\<close> is.
\<close>

definition issue_key :: "issue \<Rightarrow> nat \<times> real" where
  "issue_key x = (level_order (i_level x), - value_or_0 x)"

definition sort_issues :: "issue list \<Rightarrow> issue list" where
  "sort_issues issues = sort_key issue_key issues"

definition build_issue_list :: "extracted_metrics \<Rightarrow> issue list" where
  "build_issue_list m = sort_issues (fired_issues m)"

text \<open>An example: a TTFB of 1500 ms and a TBT of 700 ms, every other value absent.\<close>

definition example_metrics :: extracted_metrics where
  "example_metrics =
     \<lparr>perfScore = None, m_lcp = None, m_inp = None, m_cls = None, m_tbt = Some 700,
      m_fcp = None, m_ttfb = Some 1500, lcpElement = None, renderBlockingTop = [],
      flags = \<lparr>lcpLazyLoaded = False, needsPrioritizeLcpImage = False, heavyBootup = False,
        hasLongTasks = False, heavyMainThread = False, lotsUnusedJs = False\<rparr>,
      auditEvidence = []\<rparr>"

text \<open>
  An example in which every rule but one fires: LCP 5000, TTFB 1500, INP 600, CLS 0.5,
  TBT 700, FCP 3500, a lazily loaded LCP element, one render blocking resource, a heavy
  boot-up and much unused JavaScript.
\<close>

definition busy_metrics :: extracted_metrics where
  "busy_metrics =
     \<lparr>perfScore = Some (3 / 10), m_lcp = Some 5000, m_inp = Some 600, m_cls = Some (5 / 10),
      m_tbt = Some 700, m_fcp = Some 3500, m_ttfb = Some 1500, lcpElement = None,
      renderBlockingTop =
        [\<lparr>rb_url = JStr ''https://a.example/app.css'', resourceType = JNull,
          wastedMs = JInt 300, totalBytes = JNull\<rparr>],
      flags = \<lparr>lcpLazyLoaded = True, needsPrioritizeLcpImage = False, heavyBootup = True,
        hasLongTasks = False, heavyMainThread = False, lotsUnusedJs = True\<rparr>,
      auditEvidence = []\<rparr>"

text \<open>An issue of a given level and value, for examples of the sort alone.\<close>

definition plain_issue :: "string \<Rightarrow> real option \<Rightarrow> issue" where
  "plain_issue level val = add_issue [] level ''LCP'' val None"

section \<open>python3-1.py: file names, one run, repeated runs\<close>

text \<open>\<open>re.sub(r"^https?://", "", url)\<close>\<close>

definition strip_scheme :: "ustr \<Rightarrow> ustr" where
  "strip_scheme url =
     (if startswith url (ucs ''http://'') then drop 7 url
      else if startswith url (ucs ''https://'') then drop 8 url
      else url)"

text \<open>
  \<open>re.sub(r"[\/:?&=#]+", "_", s)\<close>: every maximal run of the six characters becomes
  one underscore. The flag says whether the character before belongs to a run.
\<close>

definition special :: "nat \<Rightarrow> bool" where
  "special c = (c \<in> set (ucs ''/:?&=#''))"

fun squash :: "bool \<Rightarrow> ustr \<Rightarrow> ustr" where
  "squash in_run [] = []"
| "squash in_run (c # cs) =
     (if special c then (if in_run then squash True cs else ucs ''_'' @ squash True cs)
      else c # squash False cs)"

definition sanitize_filename :: "ustr \<Rightarrow> ustr \<Rightarrow> ustr" where
  "sanitize_filename url unique_suffix =
     (let s = take 150 (squash False (strip_scheme url)) in
      if unique_suffix \<noteq> [] then s @ ucs ''__'' @ take 30 unique_suffix else s)"

text \<open>\<open>os.path.join(a, b)\<close> on POSIX.\<close>

definition path_join :: "ustr \<Rightarrow> ustr \<Rightarrow> ustr" where
  "path_join a b =
     (if startswith b (ucs ''/'') then b
      else if a = [] \<or> endswith a (ucs ''/'') then a @ b
      else a @ ucs ''/'' @ b)"

text \<open>The path \<open>lighthouse_once\<close> gives to the tool for its report.\<close>

definition unique_id_of :: "ustr \<Rightarrow> ustr \<Rightarrow> ustr" where
  "unique_id_of device run_id =
     (if run_id \<noteq> [] then device @ ucs ''__'' @ run_id else device)"

definition lhr_path :: "ustr \<Rightarrow> ustr \<Rightarrow> ustr \<Rightarrow> ustr \<Rightarrow> ustr" where
  "lhr_path url out_dir device run_id =
     (let unique_id = unique_id_of device run_id;
          filename = sanitize_filename url unique_id @ ucs ''.lhr.json''
      in path_join out_dir filename)"

text \<open>\<open>run_id = f"run{i+1}" if repeats > 1 else ""\<close>\<close>

definition run_id_of :: "int \<Rightarrow> nat \<Rightarrow> ustr" where
  "run_id_of repeats i = (if 1 < repeats then ucs ''run'' @ ucs (str_nat (i + 1)) else [])"

text \<open>
  What the world gives one invocation: the message of the exception raised while the
  tool runs or its report is opened and parsed (command not found, exit code not 0,
  timeout, no file, no JSON), or the parsed report.
\<close>

datatype tool_outcome = ToolFailed string | ToolReport json

text \<open>\<open>str(e)\<close> for what the extractor raises.\<close>

fun str_error :: "lhr_error \<Rightarrow> string" where
  "str_error (AttributeError msg) = msg"
| "str_error OverflowError = ''int too large to convert to float''"

text \<open>
  The dictionary \<open>lighthouse_once\<close> returns (the key \<open>lcpReasons\<close>, a list of display
  texts, is left out). An exception leaving the function is \<open>Inl\<close> of its message, the
  only thing its handler in \<open>run_url_repeats\<close> reads.
\<close>

record run_result =
  r_url :: ustr
  r_device :: ustr
  r_lhrPath :: ustr
  r_metrics :: extracted_metrics
  r_issues :: "issue list"

definition lighthouse_once ::
  "ustr \<Rightarrow> ustr \<Rightarrow> ustr \<Rightarrow> ustr \<Rightarrow> tool_outcome \<Rightarrow> string + run_result"
where
  "lighthouse_once url out_dir device run_id outcome =
     (case outcome of
        ToolFailed msg \<Rightarrow> Inl msg
      | ToolReport lhr \<Rightarrow>
          (case extract_metrics lhr of
             Inl e \<Rightarrow> Inl (str_error e)
           | Inr m \<Rightarrow>
               Inr \<lparr>r_url = url, r_device = device,
                    r_lhrPath = lhr_path url out_dir device run_id,
                    r_metrics = m, r_issues = build_issue_list m\<rparr>))"

text \<open>
  The loop \<open>for i in range(repeats)\<close> of \<open>run_url_repeats\<close>; \<open>once i\<close> is the call of
  \<open>lighthouse_once\<close> in round \<open>i\<close>, the state is the pair of \<open>runs\<close> and \<open>errors\<close>.
\<close>

fun repeat_loop ::
  "(nat \<Rightarrow> string + run_result) \<Rightarrow> nat list \<Rightarrow> run_result list \<times> string list
     \<Rightarrow> run_result list \<times> string list"
where
  "repeat_loop once [] st = st"
| "repeat_loop once (i # rounds) st =
     (case once i of
        Inr r \<Rightarrow> repeat_loop once rounds (fst st @ [r], snd st)
      | Inl e \<Rightarrow> repeat_loop once rounds (fst st, snd st @ [e]))"

text \<open>\<open>sep.join(xs)\<close>\<close>

fun join :: "string \<Rightarrow> string list \<Rightarrow> string" where
  "join sep [] = []"
| "join sep [x] = x"
| "join sep (x # y # ys) = x @ sep @ join sep (y # ys)"

text \<open>
  The two Chinese phrases of the summary of more than three errors, parts of an error
  message, as the bytes of their UTF-8 encoding.
\<close>

definition and_more :: string where
  "and_more = [CHR 0xE8, CHR 0xBF, CHR 0x98, CHR 0xE6, CHR 0x9C, CHR 0x89]"

definition more_errors :: string where
  "more_errors = [CHR 0xE4, CHR 0xB8, CHR 0xAA, CHR 0xE9, CHR 0x94, CHR 0x99,
     CHR 0xE8, CHR 0xAF, CHR 0xAF]"

record failed_result =
  x_url :: ustr
  x_device :: ustr
  x_error :: string
  x_allErrors :: "string list"

record folded_result =
  f_url :: ustr
  f_device :: ustr
  f_repeats :: int
  f_metrics :: extracted_metrics
  f_grades :: "(string \<times> string) list"
  f_issues :: "issue list"
  f_sampleLhr :: ustr
  f_errors :: "string list"

datatype url_result = AllFailed failed_result | Folded folded_result

text \<open>The inner function \<open>collect\<close>: the values of one key over the runs.\<close>

definition collect :: "run_result list \<Rightarrow> (extracted_metrics \<Rightarrow> real option) \<Rightarrow> real option list" where
  "collect runs k = map Some (available (map (\<lambda>r. k (r_metrics r)) runs))"

definition run_url_repeats ::
  "ustr \<Rightarrow> int \<Rightarrow> ustr \<Rightarrow> ustr \<Rightarrow> (nat \<Rightarrow> tool_outcome) \<Rightarrow> py_error + url_result"
where
  "run_url_repeats url repeats out_dir device tool =
     (let once = (\<lambda>i. lighthouse_once url out_dir device (run_id_of repeats i) (tool i));
          st = repeat_loop once [0..<nat repeats] ([], []);
          runs = fst st;
          errors = snd st
      in
      if runs = [] then
        let error_msg = join ''; '' (take 3 errors)
              @ (if 3 < length errors
                 then '' ... ('' @ and_more @ str_nat (length errors - 3) @ more_errors @ '')''
                 else [])
        in Inr (AllFailed \<lparr>x_url = url, x_device = device,
                  x_error = (if error_msg \<noteq> [] then error_msg else ''unknown error''),
                  x_allErrors = errors\<rparr>)
      else
        bind_err (median (collect runs perfScore)) (\<lambda>v_score.
        bind_err (median (collect runs m_lcp)) (\<lambda>v_lcp.
        bind_err (median (collect runs m_inp)) (\<lambda>v_inp.
        bind_err (median (collect runs m_cls)) (\<lambda>v_cls.
        bind_err (median (collect runs m_tbt)) (\<lambda>v_tbt.
        bind_err (median (collect runs m_fcp)) (\<lambda>v_fcp.
        bind_err (median (collect runs m_ttfb)) (\<lambda>v_ttfb.
        bind_err (subscript runs 0) (\<lambda>first.
        let m = \<lparr>perfScore = v_score, m_lcp = v_lcp, m_inp = v_inp, m_cls = v_cls,
                 m_tbt = v_tbt, m_fcp = v_fcp, m_ttfb = v_ttfb,
                 lcpElement = lcpElement (r_metrics first),
                 renderBlockingTop = renderBlockingTop (r_metrics first),
                 flags = flags (r_metrics first),
                 auditEvidence = []\<rparr>
        in Inr (Folded \<lparr>f_url = url, f_device = device, f_repeats = repeats, f_metrics = m,
                  f_grades =
                    [(''LCP'', grade ''LCP'' (m_lcp m)), (''INP'', grade ''INP'' (m_inp m)),
                     (''CLS'', grade ''CLS'' (m_cls m)), (''TBT'', grade ''TBT'' (m_tbt m)),
                     (''FCP'', grade ''FCP'' (m_fcp m)), (''TTFB'', grade ''TTFB'' (m_ttfb m))],
                  f_issues = build_issue_list m,
                  f_sampleLhr = r_lhrPath first,
                  f_errors = errors\<rparr>))))))))))"

section \<open>compare\_performance.py: reading two reports and comparing them\<close>

text \<open>
  \<open>float(s)\<close> is a builtin of the language, not code of the repository: the functions
  below take it as the parameter \<open>float\<close>, with \<open>None\<close> for the \<open>ValueError\<close>
  it raises on a text that is no number.
\<close>

text \<open>
  A cell of a \<open>csv.DictReader\<close> row is a text, or \<open>None\<close> where the line is
  shorter than the header.
\<close>

definition parse_time :: "(ustr \<Rightarrow> real option) \<Rightarrow> ustr option \<Rightarrow> py_error + real option" where
  "parse_time float cell =
     (case cell of
        None \<Rightarrow> Inr None
      | Some value0 \<Rightarrow>
          if value0 = [] \<or> value0 = ucs ''N/A'' then Inr None
          else
            let val = strip value0 in
            if endswith val (ucs ''ms'') then
              (case float (drop_last 2 val) of
                 None \<Rightarrow> Inl ValueError
               | Some x \<Rightarrow> Inr (Some (x / 1000)))
            else if endswith val (ucs ''s'') then
              (case float (drop_last 1 val) of
                 None \<Rightarrow> Inl ValueError
               | Some x \<Rightarrow> Inr (Some x))
            else
              (case float val of
                 None \<Rightarrow> Inr None
               | Some x \<Rightarrow> Inr (Some x)))"

text \<open>\<open>float(None)\<close> raises \<open>TypeError\<close>, which \<open>parse_score\<close> does not catch.\<close>

definition parse_score :: "(ustr \<Rightarrow> real option) \<Rightarrow> ustr option \<Rightarrow> py_error + real" where
  "parse_score float cell =
     (case cell of
        None \<Rightarrow> Inl TypeError
      | Some val \<Rightarrow> (case float val of None \<Rightarrow> Inr 0 | Some x \<Rightarrow> Inr x))"

text \<open>
  One row of a report whose header has the seven columns \<open>read_csv\<close> reads
  (\<open>c_score\<close> is the column of the performance score).
\<close>

record csv_row =
  c_URL :: "ustr option"
  c_score :: "ustr option"
  c_LCP :: "ustr option"
  c_TBT :: "ustr option"
  c_FCP :: "ustr option"
  c_CLS :: "ustr option"
  c_TTFB :: "ustr option"

text \<open>The dictionary \<open>read_csv\<close> stores for one URL.\<close>

record row_values =
  score :: "real option"
  lcp :: "real option"
  tbt :: "real option"
  fcp :: "real option"
  cls :: "real option"
  ttfb :: "real option"

definition read_row :: "(ustr \<Rightarrow> real option) \<Rightarrow> csv_row \<Rightarrow> py_error + row_values" where
  "read_row float row =
     bind_err (parse_score float (c_score row)) (\<lambda>v_score.
     bind_err (parse_time float (c_LCP row)) (\<lambda>v_lcp.
     bind_err (parse_time float (c_TBT row)) (\<lambda>v_tbt.
     bind_err (parse_time float (c_FCP row)) (\<lambda>v_fcp.
     bind_err (parse_score float (c_CLS row)) (\<lambda>v_cls.
     bind_err (parse_time float (c_TTFB row)) (\<lambda>v_ttfb.
     Inr \<lparr>score = Some v_score, lcp = v_lcp, tbt = v_tbt, fcp = v_fcp,
          cls = Some v_cls, ttfb = v_ttfb\<rparr>))))))"

text \<open>
  \<open>data\<close> is a dictionary from URL to values, kept as an association list in the order
  of first insertion; a later row of the same URL replaces the earlier one.
\<close>

type_synonym report = "(ustr option \<times> row_values) list"

fun read_rows :: "(ustr \<Rightarrow> real option) \<Rightarrow> csv_row list \<Rightarrow> report \<Rightarrow> py_error + report" where
  "read_rows float [] data = Inr data"
| "read_rows float (row # rows) data =
     bind_err (read_row float row) (\<lambda>vals.
     read_rows float rows (AList.update (c_URL row) vals data))"

definition read_csv :: "(ustr \<Rightarrow> real option) \<Rightarrow> csv_row list \<Rightarrow> py_error + report" where
  "read_csv float rows = read_rows float rows []"

definition common_urls :: "report \<Rightarrow> report \<Rightarrow> ustr option list" where
  "common_urls old_data new_data =
     filter (\<lambda>u. u \<in> fst ` set new_data) (remdups (map fst old_data))"

definition metrics :: "string list" where
  "metrics = [''score'', ''lcp'', ''tbt'', ''fcp'', ''cls'', ''ttfb'']"

text \<open>\<open>d[m]\<close> on the dictionary of one URL.\<close>

definition item :: "row_values \<Rightarrow> string \<Rightarrow> py_error + real option" where
  "item d m =
     (if m = ''score'' then Inr (score d)
      else if m = ''lcp'' then Inr (lcp d)
      else if m = ''tbt'' then Inr (tbt d)
      else if m = ''fcp'' then Inr (fcp d)
      else if m = ''cls'' then Inr (cls d)
      else if m = ''ttfb'' then Inr (ttfb d)
      else Inl KeyError)"

definition lookup_url :: "report \<Rightarrow> ustr option \<Rightarrow> py_error + row_values" where
  "lookup_url data u =
     (case map_of data u of None \<Rightarrow> Inl KeyError
      | Some d \<Rightarrow> Inr d)"

text \<open>
  The body of the loop over the common URLs, for one metric \<open>m\<close>: the state is the pair
  of \<open>old_totals[m]\<close> and \<open>new_totals[m]\<close> (\<open>diffs[m]\<close> is not read afterwards).
\<close>

definition add_sample ::
  "report \<Rightarrow> report \<Rightarrow> string \<Rightarrow> ustr option \<Rightarrow> real list \<times> real list \<Rightarrow> py_error + real list \<times> real list"
where
  "add_sample old_data new_data m u totals =
     bind_err (lookup_url old_data u) (\<lambda>old.
     bind_err (lookup_url new_data u) (\<lambda>new.
     bind_err (item old m) (\<lambda>a.
     case a of
       None \<Rightarrow> Inr totals
     | Some x \<Rightarrow>
         bind_err (item new m) (\<lambda>b.
         case b of
           None \<Rightarrow> Inr totals
         | Some y \<Rightarrow> Inr (fst totals @ [x], snd totals @ [y])))))"

fun collect_totals ::
  "report \<Rightarrow> report \<Rightarrow> string \<Rightarrow> ustr option list \<Rightarrow> real list \<times> real list \<Rightarrow> py_error + real list \<times> real list"
where
  "collect_totals old_data new_data m [] totals = Inr totals"
| "collect_totals old_data new_data m (u # us) totals =
     bind_err (add_sample old_data new_data m u totals) (collect_totals old_data new_data m us)"

text \<open>
  The body of the last loop for one metric: \<open>None\<close> when no line is printed, else the
  four numbers of the line: old average, new average, difference and improvement in
  percent.
\<close>

definition report_line ::
  "string \<Rightarrow> real list \<Rightarrow> real list \<Rightarrow> py_error + (real \<times> real \<times> real \<times> real) option"
where
  "report_line m old_totals new_totals =
     (if old_totals = [] then Inr None
      else
        bind_err (py_div (sum_list old_totals) (real (length old_totals))) (\<lambda>avg_old.
        bind_err (py_div (sum_list new_totals) (real (length new_totals))) (\<lambda>avg_new.
        let avg_diff = avg_new - avg_old in
        bind_err
          (if m = ''score'' then
             (if avg_old \<noteq> 0
              then bind_err (py_div (avg_new - avg_old) avg_old) (\<lambda>q. Inr (q * 100))
              else Inr 0)
           else
             (if avg_old \<noteq> 0
              then bind_err (py_div (avg_old - avg_new) avg_old) (\<lambda>q. Inr (q * 100))
              else Inr 0))
          (\<lambda>improvement. Inr (Some (avg_old, avg_new, avg_diff, improvement))))))"

text \<open>The comparison of two reports for one metric, from the rows to the printed line.\<close>

definition compare_metric ::
  "(ustr \<Rightarrow> real option) \<Rightarrow> csv_row list \<Rightarrow> csv_row list \<Rightarrow> string
     \<Rightarrow> py_error + (real \<times> real \<times> real \<times> real) option"
where
  "compare_metric float old_rows new_rows m =
     bind_err (read_csv float old_rows) (\<lambda>old_data.
     bind_err (read_csv float new_rows) (\<lambda>new_data.
     bind_err (collect_totals old_data new_data m (common_urls old_data new_data) ([], []))
       (\<lambda>totals. report_line m (fst totals) (snd totals))))"

text \<open>
  For the examples: \<open>float\<close> on the plain decimal literals, an optional sign, ASCII
  digits and an optional fraction, with white space around them. (Python's \<open>float\<close>
  also reads exponents, \<open>inf\<close>, \<open>nan\<close>, digit groups and the digits of other
  scripts; the examples use no such text.)
\<close>

definition is_digit :: "nat \<Rightarrow> bool" where
  "is_digit c = (c \<in> set (ucs ''0123456789''))"

definition digit_value :: "nat \<Rightarrow> nat" where
  "digit_value c = c - 48"

definition digits_value :: "ustr \<Rightarrow> nat" where
  "digits_value ds = foldl (\<lambda>n c. 10 * n + digit_value c) 0 ds"

definition unsigned_decimal :: "ustr \<Rightarrow> real option" where
  "unsigned_decimal u =
     (let ip = takeWhile is_digit u; rest = dropWhile is_digit u in
      case rest of
        [] \<Rightarrow> if ip = [] then None else Some (real (digits_value ip))
      | c # fp \<Rightarrow>
          if [c] = ucs ''.'' \<and> list_all is_digit fp \<and> (ip \<noteq> [] \<or> fp \<noteq> [])
          then Some (real (digits_value ip) + real (digits_value fp) / 10 ^ length fp)
          else None)"

definition float_decimal :: "ustr \<Rightarrow> real option" where
  "float_decimal s =
     (case strip s of
        [] \<Rightarrow> None
      | c # u \<Rightarrow>
          if [c] = ucs ''-'' then map_option uminus (unsigned_decimal u)
          else if [c] = ucs ''+'' then unsigned_decimal u
          else unsigned_decimal (c # u))"

text \<open>
  An example row for the URL \<open>u\<close>, with the score cell, the LCP cell and the TTFB cell
  given as ASCII literals.
\<close>

definition example_row :: "string \<Rightarrow> string \<Rightarrow> string \<Rightarrow> csv_row" where
  "example_row score_cell lcp_cell ttfb_cell =
     \<lparr>c_URL = Some (ucs ''u''), c_score = Some (ucs score_cell), c_LCP = Some (ucs lcp_cell),
      c_TBT = Some (ucs ''N/A''), c_FCP = Some [], c_CLS = Some (ucs ''0.1''),
      c_TTFB = Some (ucs ttfb_cell)\<rparr>"

section \<open>The statistics as the specification words them\<close>

text \<open>
  Median of the available samples: sort ascending; an odd count gives the middle element,
  an even count the mean of the two middle elements, no sample gives absent.
\<close>

definition median_spec :: "real list \<Rightarrow> real option" where
  "median_spec samples =
     (let s = sort samples; n = length s in
      if n = 0 then None
      else if odd n then Some (s ! (n div 2))
      else Some ((s ! (n div 2 - 1) + s ! (n div 2)) / 2))"

text \<open>
  75th percentile by linear interpolation: in the sorted sequence of length \<open>n\<close> the
  position is \<open>(n - 1) * 0.75\<close>; the result lies between the elements at the floor and
  at the ceiling of the position, at the fractional part of the way.
\<close>

definition p75_spec :: "real list \<Rightarrow> real" where
  "p75_spec samples =
     (let s = sort samples;
          pos = real (length s - 1) * (75 / 100);
          below = s ! nat \<lfloor>pos\<rfloor>;
          above = s ! nat \<lceil>pos\<rceil>
      in below + (above - below) * (pos - real_of_int \<lfloor>pos\<rfloor>))"

section \<open>The shape of a report\<close>

text \<open>
  Reading a report by path, without failure: the value under a key of a \<open>dict\<close>, and
  \<open>None\<close> where the key is missing or the object is no \<open>dict\<close>.
\<close>

fun is_dict :: "json \<Rightarrow> bool" where
  "is_dict (JObj kvs) = True"
| "is_dict v = False"

fun field :: "json \<Rightarrow> string \<Rightarrow> json" where
  "field (JObj kvs) k = dict_get kvs k"
| "field v k = JNull"

text \<open>An object that is a \<open>dict\<close>, or that \<open>or {}\<close> replaces by the empty \<open>dict\<close>.\<close>

definition dict_or_empty :: "json \<Rightarrow> bool" where
  "dict_or_empty v = (is_dict v \<or> \<not> truthy v)"

text \<open>An object that \<open>float\<close> converts or that is left alone as no number.\<close>

fun convertible :: "json \<Rightarrow> bool" where
  "convertible (JInt i) = (\<not> too_large i)"
| "convertible v = True"

text \<open>The audit under an id, and its \<open>numericValue\<close> as a number.\<close>

definition audit_of :: "json \<Rightarrow> string \<Rightarrow> json" where
  "audit_of lhr audit_id = field (field lhr ''audits'') audit_id"

definition numeric_at :: "json \<Rightarrow> string \<Rightarrow> real option" where
  "numeric_at lhr audit_id = numeric (field (audit_of lhr audit_id) ''numericValue'')"

text \<open>
  An audit whose \<open>numericValue\<close> can be read: the audit is a \<open>dict\<close> or counts as
  false, and the value is no integer that \<open>float\<close> refuses.
\<close>

definition numeric_readable :: "json \<Rightarrow> string \<Rightarrow> bool" where
  "numeric_readable lhr audit_id =
     (dict_or_empty (audit_of lhr audit_id)
      \<and> convertible (field (audit_of lhr audit_id) ''numericValue''))"

text \<open>
  The reports the extractor walks through without a failure. The report itself is a
  \<open>dict\<close>; \<open>audits\<close>, \<open>categories\<close> and the \<open>performance\<close> of the categories
  are each a \<open>dict\<close> or count as false, and so is each of the audits the extractor
  reads and the \<open>details\<close> of the five audits whose details it walks into; the six
  timings and the score are no integers that \<open>float\<close> refuses. The experimental INP
  audit is read only when the stable one gives no number. Nothing else is asked: not of
  the other audits, not of the other leaves.
\<close>

definition extractable :: "json \<Rightarrow> bool" where
  "extractable lhr =
     (is_dict lhr
      \<and> dict_or_empty (field lhr ''audits'')
      \<and> (\<forall>audit_id \<in> set [''largest-contentful-paint'', ''cumulative-layout-shift'',
              ''total-blocking-time'', ''first-contentful-paint'', ''server-response-time'',
              ''interaction-to-next-paint'']. numeric_readable lhr audit_id)
      \<and> (numeric_at lhr ''interaction-to-next-paint'' = None
           \<longrightarrow> numeric_readable lhr ''experimental-interaction-to-next-paint'')
      \<and> dict_or_empty (field lhr ''categories'')
      \<and> dict_or_empty (field (field lhr ''categories'') ''performance'')
      \<and> convertible (field (field (field lhr ''categories'') ''performance'') ''score'')
      \<and> (\<forall>audit_id \<in> set [''largest-contentful-paint-element'', ''render-blocking-resources'',
              ''long-tasks'', ''unused-javascript'', ''third-party-summary''].
             dict_or_empty (audit_of lhr audit_id)
             \<and> dict_or_empty (field (audit_of lhr audit_id) ''details''))
      \<and> (\<forall>audit_id \<in> set [''lcp-lazy-loaded'', ''prioritize-lcp-image'', ''bootup-time'',
              ''mainthread-work-breakdown'', ''diagnostics'']. dict_or_empty (audit_of lhr audit_id)))"

text \<open>The \<open>items\<close> under the \<open>details\<close> of an audit, the empty list when there is no such list.\<close>

definition items_at :: "json \<Rightarrow> string \<Rightarrow> json list" where
  "items_at lhr audit_id =
     (case or_list (field (field (audit_of lhr audit_id) ''details'') ''items'') of
        JArr xs \<Rightarrow> xs | _ \<Rightarrow> [])"

text \<open>The record the extractor returns when it returns one, read from the report by path.\<close>

definition extracted :: "json \<Rightarrow> extracted_metrics" where
  "extracted lhr =
     \<lparr>perfScore = numeric (field (field (field lhr ''categories'') ''performance'') ''score''),
      m_lcp = numeric_at lhr ''largest-contentful-paint'',
      m_inp = (case numeric_at lhr ''interaction-to-next-paint'' of
                 None \<Rightarrow> numeric_at lhr ''experimental-interaction-to-next-paint''
               | Some x \<Rightarrow> Some x),
      m_cls = numeric_at lhr ''cumulative-layout-shift'',
      m_tbt = numeric_at lhr ''total-blocking-time'',
      m_fcp = numeric_at lhr ''first-contentful-paint'',
      m_ttfb = numeric_at lhr ''server-response-time'',
      lcpElement = lcp_element_info_of
        (case items_at lhr ''largest-contentful-paint-element'' of [] \<Rightarrow> JNull | it # _ \<Rightarrow> it),
      renderBlockingTop = rb_top_of (take 10 (items_at lhr ''render-blocking-resources'')),
      flags =
        \<lparr>lcpLazyLoaded = eq_zero (field (audit_of lhr ''lcp-lazy-loaded'') ''score''),
         needsPrioritizeLcpImage = eq_zero (field (audit_of lhr ''prioritize-lcp-image'') ''score''),
         heavyBootup = number_above (field (audit_of lhr ''bootup-time'') ''numericValue'') 2000,
         hasLongTasks =
           (case or_list (field (field (audit_of lhr ''long-tasks'') ''details'') ''items'') of
              JArr xs \<Rightarrow> 0 < length xs | _ \<Rightarrow> False),
         heavyMainThread =
           number_above (field (audit_of lhr ''mainthread-work-breakdown'') ''numericValue'') 4000,
         lotsUnusedJs =
           number_above
             (field (field (audit_of lhr ''unused-javascript'') ''details'') ''overallSavingsMs'')
             500\<rparr>,
      auditEvidence =
        [(''bootup-time'',
          JObj [(''numericValue'', field (audit_of lhr ''bootup-time'') ''numericValue'')]),
         (''long-tasks'',
          JObj [(''items'', field (field (audit_of lhr ''long-tasks'') ''details'') ''items'')]),
         (''mainthread-work-breakdown'',
          JObj [(''numericValue'',
                 field (audit_of lhr ''mainthread-work-breakdown'') ''numericValue'')]),
         (''unused-javascript'',
          JObj [(''overallSavingsMs'',
                 field (field (audit_of lhr ''unused-javascript'') ''details'')
                   ''overallSavingsMs'')]),
         (''render-blocking-resources'',
          JObj [(''items'', JArr (take 10 (items_at lhr ''render-blocking-resources'')))]),
         (''diagnostics'', JObj [(''details'', field (audit_of lhr ''diagnostics'') ''details'')]),
         (''third-party-summary'',
          JObj [(''items'',
                 field (field (audit_of lhr ''third-party-summary'') ''details'') ''items'')])]\<rparr>"

section \<open>The outcomes of the repeats\<close>

text \<open>
  The outcome of every round of \<open>run_url_repeats\<close>, in order: the error message of a
  failed repeat or the result of a successful one; then the messages of the failed
  repeats and the results of the successful ones.
\<close>

definition outcomes ::
  "ustr \<Rightarrow> int \<Rightarrow> ustr \<Rightarrow> ustr \<Rightarrow> (nat \<Rightarrow> tool_outcome) \<Rightarrow> (string + run_result) list"
where
  "outcomes url repeats out_dir device tool =
     map (\<lambda>i. lighthouse_once url out_dir device (run_id_of repeats i) (tool i))
       [0..<nat repeats]"

fun failures :: "('e + 'a) list \<Rightarrow> 'e list" where
  "failures [] = []"
| "failures (Inl e # rs) = e # failures rs"
| "failures (Inr r # rs) = failures rs"

fun successes :: "('e + 'a) list \<Rightarrow> 'a list" where
  "successes [] = []"
| "successes (Inl e # rs) = successes rs"
| "successes (Inr r # rs) = r # successes rs"

text \<open>The median of one metric over a list of runs, as the specification words it.\<close>

definition median_over :: "(extracted_metrics \<Rightarrow> real option) \<Rightarrow> run_result list \<Rightarrow> real option" where
  "median_over k runs = median_spec (available (map (\<lambda>r. k (r_metrics r)) runs))"

text \<open>
  Two example worlds for three repeats: in the first the second invocation times out
  and the two others report an LCP of 3000 ms and of 5000 ms; in the second every
  invocation fails.
\<close>

definition lcp_report :: "int \<Rightarrow> json" where
  "lcp_report v =
     JObj [(''audits'', JObj [(''largest-contentful-paint'', JObj [(''numericValue'', JInt v)])])]"

definition second_fails :: "nat \<Rightarrow> tool_outcome" where
  "second_fails i =
     (if i = 0 then ToolReport (lcp_report 3000)
      else if i = 1 then ToolFailed ''timeout''
      else ToolReport (lcp_report 5000))"

definition all_fail :: "nat \<Rightarrow> tool_outcome" where
  "all_fail i = ToolFailed ''Command not found: lighthouse''"

text \<open>
  An example of a report with missing and misplaced parts: one audit whose
  \<open>numericValue\<close> is text, one audit that is \<open>null\<close>, one with a number, one
  audit the extractor never reads that is a text, and \<open>categories\<close> that is \<open>null\<close>.
\<close>

definition sparse_report :: json where
  "sparse_report =
     JObj [(''audits'',
            JObj [(''largest-contentful-paint'', JObj [(''numericValue'', JStr ''12'')]),
                  (''bootup-time'', JNull),
                  (''total-blocking-time'', JObj [(''numericValue'', JInt 700)]),
                  (''viewport'', JStr ''not an audit'')]),
           (''categories'', JNull)]"

section \<open>Basic facts\<close>

lemma bind_err_Inl [simp]: "bind_err (Inl e) f = Inl e"
  by (simp add: bind_err_def)

lemma bind_err_Inr [simp]: "bind_err (Inr v) f = f v"
  by (simp add: bind_err_def)

lemma ucs_Nil [simp]: "ucs [] = []"
  by (simp add: ucs_def)

lemma ucs_Cons [simp]: "ucs (c # cs) = of_char c # ucs cs"
  by (simp add: ucs_def)

lemma subscript_in_range:
  "0 \<le> i \<Longrightarrow> i < int (length xs) \<Longrightarrow> subscript xs i = Inr (xs ! nat i)"
  by (simp add: subscript_def)

lemma available_map_Some [simp]: "available (map Some xs) = xs"
  by (induction xs) (simp_all add: available_def)

lemma available_Nil [simp]: "available [] = []"
  by (simp add: available_def)

lemma sort_Nil_iff: "sort xs = [] \<longleftrightarrow> xs = []"
  by (cases xs) simp_all

lemma median_refines:
  "median xs = Inr (median_spec (available xs))"
proof -
  let ?s = "sort (available xs)"
  let ?n = "length ?s"
  show ?thesis
  proof (cases "available xs = []")
    case True
    then show ?thesis by (simp add: median_def median_spec_def)
  next
    case False
    then have "?s \<noteq> []" by (simp add: sort_Nil_iff)
    then have pos: "0 < ?n" by (rule length_greater_0_conv [THEN iffD2])
    have mid_ok: "0 \<le> int ?n div 2" "int ?n div 2 < int ?n"
      using pos by presburger+
    have mid_nat: "nat (int ?n div 2) = ?n div 2" by linarith
    have i: "subscript ?s (int ?n div 2) = Inr (?s ! (?n div 2))"
      using subscript_in_range [OF mid_ok] by (simp only: mid_nat)
    show ?thesis
    proof (cases "odd ?n")
      case True
      then have m: "int ?n mod 2 = 1" by presburger
      show ?thesis using False True m i
        by (simp add: median_def median_spec_def Let_def sort_Nil_iff)
    next
      case even: False
      then have m: "int ?n mod 2 \<noteq> 1" by presburger
      from even pos have prev_ok: "0 \<le> int ?n div 2 - 1" "int ?n div 2 - 1 < int ?n"
        by presburger+
      have prev_nat: "nat (int ?n div 2 - 1) = ?n div 2 - 1" by linarith
      have j: "subscript ?s (int ?n div 2 - 1) = Inr (?s ! (?n div 2 - 1))"
        using subscript_in_range [OF prev_ok] by (simp only: prev_nat)
      show ?thesis using False even m i j
        by (simp add: median_def median_spec_def Let_def sort_Nil_iff)
    qed
  qed
qed

lemma p75_refines:
  assumes "available xs \<noteq> []"
  shows "percentile xs (75 / 100) = Inr (Some (p75_spec (available xs)))"
proof -
  let ?s = "sort (available xs)"
  let ?n = "length ?s"
  let ?idx = "real_of_int (int ?n - 1) * (75 / 100)"
  from assms have ne: "?s \<noteq> []" by (simp add: sort_Nil_iff)
  then have "0 < ?n" by (rule length_greater_0_conv [THEN iffD2])
  then have n1: "1 \<le> ?n" by linarith
  show ?thesis
  proof (cases "?n = 1")
    case True
    have "subscript ?s 0 = Inr (?s ! 0)"
      using True subscript_in_range [of 0 ?s] by simp
    with True assms show ?thesis
      by (simp add: percentile_def p75_spec_def Let_def)
  next
    case False
    with n1 have n2: "2 \<le> ?n" by linarith
    have idx_pos: "?idx = real (?n - 1) * (75 / 100)"
      using n1 by (simp add: of_nat_diff)
    have idx0: "0 \<le> ?idx" using n1 by simp
    have idx_lt: "?idx < real_of_int (int ?n - 1)"
      using n2 by simp
    define lo where "lo = \<lfloor>?idx\<rfloor>"
    have lo_py: "py_int ?idx = lo" using idx0 unfolding py_int_def lo_def by (simp only: if_True)
    have lo0: "0 \<le> lo" using idx0 unfolding lo_def by (simp only: zero_le_floor)
    have lo_lt: "lo < int ?n - 1"
      using idx_lt unfolding lo_def by (simp only: floor_less_iff)
    then have lo_lt': "lo < int ?n" "lo + 1 < int ?n" by linarith+
    have lo1: "0 \<le> lo + 1" using lo0 by linarith
    have a: "subscript ?s lo = Inr (?s ! nat lo)"
      by (rule subscript_in_range [OF lo0 lo_lt'(1)])
    have hi: "min (lo + 1) (int ?n - 1) = lo + 1" using lo_lt by linarith
    have b: "subscript ?s (lo + 1) = Inr (?s ! nat (lo + 1))"
      by (rule subscript_in_range [OF lo1 lo_lt'(2)])
    have unfold: "percentile xs (75 / 100) =
        bind_err (subscript ?s (py_int ?idx)) (\<lambda>a.
        bind_err (subscript ?s (min (py_int ?idx + 1) (int ?n - 1))) (\<lambda>b.
        Inr (Some (a + (b - a) * (?idx - real_of_int (py_int ?idx))))))"
      unfolding percentile_def Let_def using assms False
      by (simp only: if_False)
    have code: "percentile xs (75 / 100) =
        Inr (Some (?s ! nat lo + (?s ! nat (lo + 1) - ?s ! nat lo) * (?idx - real_of_int lo)))"
      unfolding unfold lo_py hi a b bind_err_Inr ..
    have spec: "p75_spec (available xs) =
        ?s ! nat lo + (?s ! nat \<lceil>?idx\<rceil> - ?s ! nat lo) * (?idx - real_of_int lo)"
      unfolding p75_spec_def Let_def idx_pos [symmetric] lo_def ..
    show ?thesis
    proof (cases "?idx = real_of_int lo")
      case True
      then show ?thesis unfolding code spec by simp
    next
      case False
      then have "\<lceil>?idx\<rceil> = lo + 1"
        unfolding lo_def by (metis ceiling_altdef of_int_floor_cancel)
      then show ?thesis unfolding code spec by simp
    qed
  qed
qed

lemma grade_table:
  assumes "(m, good, ni) \<in> {(''LCP'', 2500, 4000), (''INP'', 200, 500), (''CLS'', 1 / 10, 25 / 100),
      (''TBT'', 200, 600), (''FCP'', 1800, 3000), (''TTFB'', 800, 1800)}"
  shows "grade m None = ''N/A'' \<and>
     grade m (Some v) = (if v \<le> good then ''GOOD'' else if v \<le> ni then ''NI'' else ''POOR'')"
proof -
  from assms have "(m, good, ni) = (''LCP'', 2500, 4000) \<or> (m, good, ni) = (''INP'', 200, 500)
      \<or> (m, good, ni) = (''CLS'', 1 / 10, 25 / 100) \<or> (m, good, ni) = (''TBT'', 200, 600)
      \<or> (m, good, ni) = (''FCP'', 1800, 3000) \<or> (m, good, ni) = (''TTFB'', 800, 1800)"
    by (simp only: insert_iff empty_iff simp_thms)
  then show ?thesis
    by (elim disjE) (simp_all add: grade_def THRESHOLDS_def)
qed


section \<open>Claims about the statistics and the grading\<close>

text \<open>
  C1. The median used to fold repeat runs drops the absent samples, sorts the rest
  ascending and returns the middle element for an odd count, the mean of the two middle
  elements for an even count and absent for no sample; it never raises. The median of
  \<open>[]\<close> is absent, of \<open>[5]\<close> is 5 and of \<open>[1,2,3,4]\<close> is 2.5.
\<close>

theorem median_is_middle_of_sorted:
  "median xs = Inr (median_spec (available xs))
   \<and> median [] = Inr None
   \<and> median [Some 5] = Inr (Some 5)
   \<and> median [Some 1, Some 2, Some 3, Some 4] = Inr (Some (25 / 10))"
proof -
  have "median [] = Inr None"
    by (simp add: median_def)
  moreover have "median [Some 5] = Inr (Some 5)"
    by (simp add: median_def available_def subscript_def)
  moreover have "median [Some 1, Some 2, Some 3, Some 4] = Inr (Some (25 / 10))"
    by (simp add: median_def available_def subscript_def)
  ultimately show ?thesis
    using median_refines [of xs] by simp
qed

text \<open>
  C2, as the code has it. For each of the metrics LCP, INP, CLS, TBT, FCP and TTFB the
  grade of a value is the label \<open>GOOD\<close> up to the good threshold, the label \<open>NI\<close>
  (needs improvement) up to the secondary threshold and the label \<open>POOR\<close> above it,
  and the grade of an absent value is \<open>N/A\<close>, with the thresholds 2500/4000,
  200/500, 0.1/0.25, 200/600, 1800/3000 and 800/1800. LCP of 2000, 3000, 5000 and absent
  grade \<open>GOOD\<close>, \<open>NI\<close>, \<open>POOR\<close> and \<open>N/A\<close>.
\<close>

theorem grade_by_thresholds:
  assumes "(m, good, ni) \<in> {(''LCP'', 2500, 4000), (''INP'', 200, 500), (''CLS'', 1 / 10, 25 / 100),
      (''TBT'', 200, 600), (''FCP'', 1800, 3000), (''TTFB'', 800, 1800)}"
  shows "grade m None = ''N/A''
   \<and> grade m (Some v) = (if v \<le> good then ''GOOD'' else if v \<le> ni then ''NI'' else ''POOR'')
   \<and> grade ''LCP'' (Some 2000) = ''GOOD''
   \<and> grade ''LCP'' (Some 3000) = ''NI''
   \<and> grade ''LCP'' (Some 5000) = ''POOR''
   \<and> grade ''LCP'' None = ''N/A''"
proof -
  have "grade ''LCP'' (Some 2000) = ''GOOD''" "grade ''LCP'' (Some 3000) = ''NI''"
    "grade ''LCP'' (Some 5000) = ''POOR''" "grade ''LCP'' None = ''N/A''"
    by (simp_all add: grade_def THRESHOLDS_def)
  then show ?thesis using grade_table [OF assms, of v] by simp
qed

theorem grade_by_thresholds_witness:
  "grade ''CLS'' None = ''N/A'' \<and> grade ''CLS'' (Some (2 / 10)) = ''NI''
   \<and> grade ''TTFB'' (Some 800) = ''GOOD'' \<and> grade ''INP'' (Some 501) = ''POOR''"
  using grade_by_thresholds [of "''CLS''" "1 / 10" "25 / 100" "2 / 10"]
    grade_by_thresholds [of "''TTFB''" 800 1800 800]
    grade_by_thresholds [of "''INP''" 200 500 501]
  by simp

text \<open>
  C2 as stated fails on the code in the name of the middle label only: the grade of an
  LCP of 3000 is the text \<open>NI\<close>, which is what the report files show, and not the
  text \<open>NEEDS_IMPROVEMENT\<close>.
\<close>

theorem grade_label_counterexample:
  "grade ''LCP'' (Some 3000) = ''NI'' \<and> grade ''LCP'' (Some 3000) \<noteq> ''NEEDS_IMPROVEMENT''"
  by (simp add: grade_def THRESHOLDS_def)

text \<open>
  C6. For a sample sequence with at least one available sample the 75th percentile is the
  linear interpolation in the ascending sequence at position \<open>(n - 1) * 0.75\<close>,
  between the elements at the floor and at the ceiling of the position by its fractional
  part; it never raises, and a single sample is its own percentile. The 75th percentile of
  \<open>[10,20,30,40]\<close> is 32.5.
\<close>

theorem percentile_75_interpolates:
  assumes "available xs \<noteq> []"
  shows "percentile xs (75 / 100) = Inr (Some (p75_spec (available xs)))
   \<and> percentile [Some x] (75 / 100) = Inr (Some x)
   \<and> percentile [Some 10, Some 20, Some 30, Some 40] (75 / 100) = Inr (Some (325 / 10))"
proof -
  have "percentile [Some x] (75 / 100) = Inr (Some x)"
    by (simp add: percentile_def available_def subscript_def)
  moreover have
    "percentile [Some 10, Some 20, Some 30, Some 40] (75 / 100) = Inr (Some (325 / 10))"
    by (simp add: percentile_def available_def subscript_def py_int_def)
  ultimately show ?thesis using p75_refines [OF assms] by simp
qed

theorem percentile_75_interpolates_witness:
  "available [Some 40, None, Some 10, Some 30, Some (20::real)] \<noteq> []
   \<and> percentile [Some 40, None, Some 10, Some 30, Some 20] (75 / 100) = Inr (Some (325 / 10))"
proof -
  have ne: "available [Some 40, None, Some 10, Some 30, Some (20::real)] \<noteq> []"
    by (simp add: available_def)
  have "p75_spec (available [Some 40, None, Some 10, Some 30, Some 20]) = 325 / 10"
    by (simp add: p75_spec_def available_def)
  then show ?thesis using ne percentile_75_interpolates [OF ne] by simp
qed

section \<open>Facts about the comparison\<close>

lemma endswith_append [simp]: "endswith (p @ suf) suf"
  by (simp add: endswith_def)

lemma drop_last_append [simp]: "length suf = k \<Longrightarrow> drop_last k (p @ suf) = p"
  by (simp add: drop_last_def)

lemma endswith_snoc: "endswith (p @ [c]) [a, b] \<longleftrightarrow> b = c \<and> endswith p [a]"
proof (cases p rule: rev_cases)
  case Nil
  then show ?thesis by (auto simp: endswith_def)
next
  case (snoc q d)
  then show ?thesis by (auto simp: endswith_def)
qed

lemma strip_Nil [simp]: "strip [] = []"
  by (simp add: strip_def)

lemma strip_NA: "strip (ucs ''N/A'') = ucs ''N/A''"
  by (simp add: strip_def is_space_def)

lemma not_NA_suffix: "strip v = p @ [c] \<Longrightarrow> c \<noteq> 65 \<Longrightarrow> v \<noteq> [] \<and> v \<noteq> ucs ''N/A''"
proof (intro conjI notI)
  assume "strip v = p @ [c]" "v = []"
  then show False by simp
next
  assume a: "strip v = p @ [c]" "c \<noteq> 65" "v = ucs ''N/A''"
  then have "ucs ''N/A'' = p @ [c]" using strip_NA by simp
  then have "last (ucs ''N/A'') = last (p @ [c])" by (rule arg_cong)
  with a(2) show False by simp
qed

lemma parse_time_ms:
  assumes "strip v = p @ ucs ''ms''" and "float p = Some x"
  shows "parse_time float (Some v) = Inr (Some (x / 1000))"
proof -
  from assms(1) have "strip v = (p @ ucs ''m'') @ [115]" by simp
  then have ne: "v \<noteq> [] \<and> v \<noteq> ucs ''N/A''" by (rule not_NA_suffix) simp
  have "endswith (p @ ucs ''ms'') (ucs ''ms'')" by (rule endswith_append)
  moreover have "drop_last 2 (p @ ucs ''ms'') = p" by (rule drop_last_append) simp
  ultimately show ?thesis using assms ne
    by (simp add: parse_time_def Let_def)
qed

lemma parse_time_s:
  assumes "strip v = p @ ucs ''s''" and "\<not> endswith p (ucs ''m'')" and "float p = Some x"
  shows "parse_time float (Some v) = Inr (Some x)"
proof -
  from assms(1) have "strip v = p @ [115]" by simp
  then have ne: "v \<noteq> [] \<and> v \<noteq> ucs ''N/A''" by (rule not_NA_suffix) simp
  have "\<not> endswith (p @ ucs ''s'') (ucs ''ms'')"
    using assms(2) by (simp add: endswith_snoc)
  moreover have "endswith (p @ ucs ''s'') (ucs ''s'')" by (rule endswith_append)
  moreover have "drop_last 1 (p @ ucs ''s'') = p" by (rule drop_last_append) simp
  ultimately show ?thesis using assms ne
    by (simp add: parse_time_def Let_def)
qed

lemma parse_time_bare:
  assumes "v \<noteq> []" "v \<noteq> ucs ''N/A''" and "\<not> endswith (strip v) (ucs ''s'')"
  shows "parse_time float (Some v) = Inr (float (strip v))"
proof -
  have "\<not> endswith (strip v) (ucs ''ms'')"
  proof
    assume "endswith (strip v) (ucs ''ms'')"
    then have "endswith (strip v) (ucs ''s'')"
      by (cases "strip v" rule: rev_cases) (auto simp: endswith_def)
    with assms(3) show False ..
  qed
  with assms show ?thesis
    by (simp add: parse_time_def Let_def split: option.split)
qed

lemma parse_time_absent:
  "parse_time float None = Inr None"
  "parse_time float (Some []) = Inr None"
  "parse_time float (Some (ucs ''N/A'')) = Inr None"
  by (simp_all add: parse_time_def)

lemma read_row_fields:
  assumes "read_row float row = Inr vals"
  shows "parse_time float (c_LCP row) = Inr (lcp vals)
    \<and> parse_time float (c_TBT row) = Inr (tbt vals)
    \<and> parse_time float (c_FCP row) = Inr (fcp vals)
    \<and> parse_time float (c_TTFB row) = Inr (ttfb vals)"
  using assms by (auto simp: read_row_def bind_err_def split: sum.splits)

lemma read_row_ok:
  assumes "c_score row = Some s" "c_CLS row = Some c"
    and "parse_time float (c_LCP row) = Inr a" "parse_time float (c_TBT row) = Inr b"
    and "parse_time float (c_FCP row) = Inr d" "parse_time float (c_TTFB row) = Inr e"
  shows "read_row float row =
     Inr \<lparr>score = Some (case float s of None \<Rightarrow> 0 | Some x \<Rightarrow> x), lcp = a, tbt = b, fcp = d,
          cls = Some (case float c of None \<Rightarrow> 0 | Some x \<Rightarrow> x), ttfb = e\<rparr>"
  using assms by (simp add: read_row_def parse_score_def split: option.split)

lemma item_metrics:
  assumes "m \<in> set metrics"
  shows "\<exists>a. item d m = Inr a"
  using assms by (auto simp: metrics_def item_def)

lemma add_sample_individual:
  assumes "lookup_url old_data u = Inr old" "lookup_url new_data u = Inr new"
    and "item old m = Inr a" "item new m = Inr b"
  shows "add_sample old_data new_data m u totals =
     Inr (case (a, b) of (Some x, Some y) \<Rightarrow> (fst totals @ [x], snd totals @ [y]) | _ \<Rightarrow> totals)"
  using assms by (simp add: add_sample_def split: option.split)

lemma lookup_url_ok:
  assumes "u \<in> fst ` set data"
  shows "\<exists>d. lookup_url data u = Inr d"
proof -
  from assms have "map_of data u \<noteq> None" by (simp add: map_of_eq_None_iff)
  then show ?thesis by (auto simp: lookup_url_def)
qed

lemma collect_totals_ok:
  assumes "m \<in> set metrics"
    and "set us \<subseteq> fst ` set old_data" "set us \<subseteq> fst ` set new_data"
  shows "\<exists>ot nt. collect_totals old_data new_data m us totals = Inr (ot, nt)
     \<and> length ot + length (snd totals) = length nt + length (fst totals)"
  using assms(2,3)
proof (induction us arbitrary: totals)
  case Nil
  then show ?case by (cases totals) simp
next
  case (Cons u us)
  from Cons.prems obtain old new where
    l: "lookup_url old_data u = Inr old" "lookup_url new_data u = Inr new"
    using lookup_url_ok [of u old_data] lookup_url_ok [of u new_data] by auto
  from assms(1) obtain a b where i: "item old m = Inr a" "item new m = Inr b"
    using item_metrics by blast
  let ?t = "case (a, b) of (Some x, Some y) \<Rightarrow> (fst totals @ [x], snd totals @ [y]) | _ \<Rightarrow> totals"
  have step: "add_sample old_data new_data m u totals = Inr ?t"
    by (rule add_sample_individual [OF l i])
  have len: "length (fst ?t) + length (snd totals) = length (snd ?t) + length (fst totals)"
    by (simp split: option.split)
  from Cons.prems have "set us \<subseteq> fst ` set old_data" "set us \<subseteq> fst ` set new_data" by simp_all
  from Cons.IH [OF this, of ?t] obtain ot nt where
    r: "collect_totals old_data new_data m us ?t = Inr (ot, nt)"
      "length ot + length (snd ?t) = length nt + length (fst ?t)" by blast
  from r(2) len have "length ot + length (snd totals) = length nt + length (fst totals)"
    by linarith
  with r(1) step show ?case by simp
qed

lemma common_urls_subset:
  "set (common_urls old_data new_data) \<subseteq> fst ` set old_data"
  "set (common_urls old_data new_data) \<subseteq> fst ` set new_data"
  by (auto simp: common_urls_def)

lemma report_line_value:
  assumes "old_totals \<noteq> []" "length new_totals = length old_totals"
  shows "report_line m old_totals new_totals =
     (let avg_old = sum_list old_totals / real (length old_totals);
          avg_new = sum_list new_totals / real (length new_totals)
      in Inr (Some (avg_old, avg_new, avg_new - avg_old,
           if avg_old = 0 then 0
           else if m = ''score'' then (avg_new - avg_old) / avg_old * 100
           else (avg_old - avg_new) / avg_old * 100)))"
  using assms by (simp add: report_line_def py_div_def Let_def)

lemma compare_metric_value:
  assumes "m \<in> set metrics"
    and "read_csv float old_rows = Inr old_data" "read_csv float new_rows = Inr new_data"
  shows "\<exists>ot nt.
     collect_totals old_data new_data m (common_urls old_data new_data) ([], []) = Inr (ot, nt)
     \<and> length nt = length ot
     \<and> compare_metric float old_rows new_rows m =
        (if ot = [] then Inr None
         else
           let avg_old = sum_list ot / real (length ot);
               avg_new = sum_list nt / real (length nt)
           in Inr (Some (avg_old, avg_new, avg_new - avg_old,
                if avg_old = 0 then 0
                else if m = ''score'' then (avg_new - avg_old) / avg_old * 100
                else (avg_old - avg_new) / avg_old * 100)))"
proof -
  from collect_totals_ok [OF assms(1) common_urls_subset, of old_data new_data "([], [])"]
  obtain ot nt where
    c: "collect_totals old_data new_data m (common_urls old_data new_data) ([], []) = Inr (ot, nt)"
    and len: "length nt = length ot" by auto
  have cm: "compare_metric float old_rows new_rows m = report_line m ot nt"
    using assms(2,3) c by (simp add: compare_metric_def)
  show ?thesis
  proof (cases "ot = []")
    case True
    with c len cm show ?thesis by (simp add: report_line_def)
  next
    case False
    with c len cm report_line_value [OF False len, of m] show ?thesis by simp
  qed
qed

lemmas compare_eval = compare_metric_def read_csv_def read_row_def parse_score_def parse_time_def
  endswith_def drop_last_def float_decimal_def strip_def is_space_def unsigned_decimal_def
  is_digit_def digits_value_def digit_value_def common_urls_def add_sample_def lookup_url_def
  item_def report_line_def py_div_def example_row_def

section \<open>Claims about the comparison of two reports\<close>

text \<open>
  C7. For each of the six metrics, when both reports are read, the samples of the metric
  over the common URLs are collected in two lists of equal length; when they are not
  empty the line of the metric holds the two averages, their difference and the
  improvement in percent: \<open>(new - old) / old\<close> for the score, \<open>(old - new) / old\<close> for
  every other metric, and 0 when the old average is 0, with no division fault. An old TTFB
  average of 2.0 against a new one of 1.0 is 50 percent, an old score average of 0.5
  against a new one of 0.6 is 20 percent.
\<close>

theorem improvement_percentage:
  assumes "m \<in> set metrics"
    and "read_csv float old_rows = Inr old_data" "read_csv float new_rows = Inr new_data"
  shows "(\<exists>ot nt.
     collect_totals old_data new_data m (common_urls old_data new_data) ([], []) = Inr (ot, nt)
     \<and> length nt = length ot
     \<and> compare_metric float old_rows new_rows m =
        (if ot = [] then Inr None
         else
           let avg_old = sum_list ot / real (length ot);
               avg_new = sum_list nt / real (length nt)
           in Inr (Some (avg_old, avg_new, avg_new - avg_old,
                if avg_old = 0 then 0
                else if m = ''score'' then (avg_new - avg_old) / avg_old * 100
                else (avg_old - avg_new) / avg_old * 100))))
   \<and> report_line ''ttfb'' [2] [1] = Inr (Some (2, 1, - 1, 50))
   \<and> report_line ''score'' [5 / 10] [6 / 10] = Inr (Some (5 / 10, 6 / 10, 1 / 10, 20))
   \<and> report_line m [0] [y] = Inr (Some (0, y, y, 0))"
proof -
  have "report_line ''ttfb'' [2] [1] = Inr (Some (2, 1, - 1, 50))"
    "report_line ''score'' [5 / 10] [6 / 10] = Inr (Some (5 / 10, 6 / 10, 1 / 10, 20))"
    "report_line m [0] [y] = Inr (Some (0, y, y, 0))"
    by (simp_all add: report_line_def py_div_def)
  with compare_metric_value [OF assms] show ?thesis by simp
qed

theorem improvement_percentage_witness:
  "''ttfb'' \<in> set metrics
   \<and> read_csv float_decimal [example_row ''50'' ''3000ms'' ''2.0s'']
      = Inr [(Some (ucs ''u''), \<lparr>score = Some 50, lcp = Some 3, tbt = None, fcp = None,
               cls = Some (1 / 10), ttfb = Some 2\<rparr>)]
   \<and> read_csv float_decimal [example_row ''60'' ''2.5s'' ''1000ms'']
      = Inr [(Some (ucs ''u''), \<lparr>score = Some 60, lcp = Some (5 / 2), tbt = None, fcp = None,
               cls = Some (1 / 10), ttfb = Some 1\<rparr>)]
   \<and> compare_metric float_decimal [example_row ''50'' ''3000ms'' ''2.0s'']
        [example_row ''60'' ''2.5s'' ''1000ms''] ''ttfb'' = Inr (Some (2, 1, - 1, 50))"
proof -
  have m: "''ttfb'' \<in> set metrics" by (simp add: metrics_def)
  have old: "read_csv float_decimal [example_row ''50'' ''3000ms'' ''2.0s'']
      = Inr [(Some (ucs ''u''), \<lparr>score = Some 50, lcp = Some 3, tbt = None, fcp = None,
               cls = Some (1 / 10), ttfb = Some 2\<rparr>)]"
    by (simp add: compare_eval)
  have new: "read_csv float_decimal [example_row ''60'' ''2.5s'' ''1000ms'']
      = Inr [(Some (ucs ''u''), \<lparr>score = Some 60, lcp = Some (5 / 2), tbt = None, fcp = None,
               cls = Some (1 / 10), ttfb = Some 1\<rparr>)]"
    by (simp add: compare_eval)
  from improvement_percentage [OF m old new] m old new show ?thesis
    by (simp add: common_urls_def add_sample_def lookup_url_def item_def)
qed

text \<open>
  C8, as the code has it. A time cell (LCP, TBT, FCP, TTFB) that is missing, empty,
  \<open>N/A\<close>, or that, stripped of the white space at its ends, has no final \<open>s\<close> and is
  no number, yields an absent value and nothing is raised. A row whose score cell and CLS
  cell are present and whose four time cells are read without a fault is stored, with the
  value read from each cell. An absent value leaves out the sample of its own metric for
  that URL only: whether the sample of a metric is added depends on the two values of that
  metric alone. A score or CLS cell that is present and is no number is not left out: it
  counts as 0.0.
\<close>

theorem malformed_time_cell_excluded:
  "parse_time float None = Inr None
   \<and> parse_time float (Some []) = Inr None
   \<and> parse_time float (Some (ucs ''N/A'')) = Inr None
   \<and> (\<not> endswith (strip v) (ucs ''s'') \<and> float (strip v) = None
        \<longrightarrow> parse_time float (Some v) = Inr None)
   \<and> (float w = None \<longrightarrow> parse_score float (Some w) = Inr 0)
   \<and> (c_score row = Some s \<and> c_CLS row = Some c
        \<and> parse_time float (c_LCP row) = Inr a \<and> parse_time float (c_TBT row) = Inr b
        \<and> parse_time float (c_FCP row) = Inr d \<and> parse_time float (c_TTFB row) = Inr e
        \<longrightarrow> read_row float row =
            Inr \<lparr>score = Some (case float s of None \<Rightarrow> 0 | Some x \<Rightarrow> x), lcp = a, tbt = b,
                 fcp = d, cls = Some (case float c of None \<Rightarrow> 0 | Some x \<Rightarrow> x), ttfb = e\<rparr>)
   \<and> (lookup_url old_data u = Inr old \<and> lookup_url new_data u = Inr new
        \<and> item old m = Inr a' \<and> item new m = Inr b'
        \<longrightarrow> add_sample old_data new_data m u totals =
            Inr (case (a', b') of
                   (Some x, Some y) \<Rightarrow> (fst totals @ [x], snd totals @ [y])
                 | _ \<Rightarrow> totals))"
proof -
  have "parse_time float (Some v) = Inr None"
    if "\<not> endswith (strip v) (ucs ''s'')" "float (strip v) = None"
  proof (cases "v = [] \<or> v = ucs ''N/A''")
    case True
    then show ?thesis by (auto simp: parse_time_def)
  next
    case False
    with parse_time_bare [of v float] that show ?thesis by simp
  qed
  moreover have "parse_score float (Some w) = Inr 0" if "float w = None"
    using that by (simp add: parse_score_def)
  ultimately show ?thesis
    using parse_time_absent [of float] read_row_ok [of row s c float a b d e]
      add_sample_individual [of old_data u old new_data new m a' b' totals]
    by blast
qed

theorem malformed_time_cell_excluded_witness:
  "parse_time float_decimal (Some (ucs ''fast'')) = Inr None
   \<and> parse_score float_decimal (Some (ucs ''fast'')) = Inr 0
   \<and> read_row float_decimal (example_row ''fast'' ''fast'' ''2.0s'')
      = Inr \<lparr>score = Some 0, lcp = None, tbt = None, fcp = None, cls = Some (1 / 10),
             ttfb = Some 2\<rparr>
   \<and> add_sample
        [(Some (ucs ''u''), \<lparr>score = Some 0, lcp = None, tbt = None, fcp = None, cls = Some (1 / 10),
            ttfb = Some 2\<rparr>)]
        [(Some (ucs ''u''), \<lparr>score = Some 60, lcp = Some 3, tbt = None, fcp = None, cls = Some (1 / 10),
            ttfb = Some 1\<rparr>)]
        ''lcp'' (Some (ucs ''u'')) ([], []) = Inr ([], [])"
proof -
  let ?row = "example_row ''fast'' ''fast'' ''2.0s''"
  let ?old = "\<lparr>score = Some 0, lcp = None, tbt = None, fcp = None, cls = Some (1 / 10),
            ttfb = Some (2::real)\<rparr>"
  let ?new = "\<lparr>score = Some 60, lcp = Some 3, tbt = None, fcp = None, cls = Some (1 / 10),
            ttfb = Some (1::real)\<rparr>"
  have h1: "\<not> endswith (strip (ucs ''fast'')) (ucs ''s'') \<and> float_decimal (strip (ucs ''fast'')) = None"
    by (simp add: compare_eval)
  have h2: "float_decimal (ucs ''fast'') = None"
    by (simp add: compare_eval)
  have h3: "c_score ?row = Some (ucs ''fast'') \<and> c_CLS ?row = Some (ucs ''0.1'')
        \<and> parse_time float_decimal (c_LCP ?row) = Inr None
        \<and> parse_time float_decimal (c_TBT ?row) = Inr None
        \<and> parse_time float_decimal (c_FCP ?row) = Inr None
        \<and> parse_time float_decimal (c_TTFB ?row) = Inr (Some 2)"
    by (simp add: compare_eval)
  have h4: "lookup_url [(Some (ucs ''u''), ?old)] (Some (ucs ''u'')) = Inr ?old
        \<and> lookup_url [(Some (ucs ''u''), ?new)] (Some (ucs ''u'')) = Inr ?new
        \<and> item ?old ''lcp'' = Inr None \<and> item ?new ''lcp'' = Inr (Some 3)"
    by (simp add: lookup_url_def item_def)
  have f: "(case float_decimal (ucs ''fast'') of None \<Rightarrow> 0 | Some x \<Rightarrow> x) = (0::real)"
    "(case float_decimal (ucs ''0.1'') of None \<Rightarrow> 0 | Some x \<Rightarrow> x) = (1 / 10::real)"
    by (simp_all add: compare_eval)
  from malformed_time_cell_excluded [of float_decimal "ucs ''fast''" "ucs ''fast''" ?row "ucs ''fast''"
      "ucs ''0.1''" None None None "Some 2" "[(Some (ucs ''u''), ?old)]" "Some (ucs ''u'')" ?old
      "[(Some (ucs ''u''), ?new)]" ?new "''lcp''" None "Some 3" "([], [])"]
    h1 h2 h3 h4 f
  show ?thesis by simp
qed

text \<open>
  C8 as stated fails on the code in both halves. A score cell that is no number is kept as
  the sample 0.0 (here the old score average is 0 over one sample, where leaving the cell
  out would print no line), and a time cell with a final \<open>s\<close> whose rest is no number
  raises \<open>ValueError\<close> out of \<open>read_csv\<close>, which ends the comparison; so does the
  cell \<open>yes\<close> followed by a no-break space (U+00A0), which \<open>strip\<close> removes.
\<close>

theorem malformed_cell_counterexample:
  "compare_metric float_decimal [example_row ''abc'' ''2500ms'' ''N/A'']
      [example_row ''90'' ''2.5s'' ''N/A''] ''score'' = Inr (Some (0, 90, 90, 0))
   \<and> compare_metric float_decimal [example_row ''50'' ''yes'' ''N/A'']
      [example_row ''90'' ''2.5s'' ''N/A''] ''score'' = Inl ValueError
   \<and> parse_time float_decimal (Some (ucs ''yes'' @ [0xA0])) = Inl ValueError"
  by (simp add: compare_eval)

text \<open>
  C10. The cell parser gives seconds: a cell that, stripped, is a number followed by
  \<open>ms\<close> yields the number divided by 1000; a number followed by \<open>s\<close> yields the
  number; a bare number yields the number; the empty cell and \<open>N/A\<close> yield absent.
  \<open>read_csv\<close> reads the LCP, TBT, FCP and TTFB cells of every row with it, so that a
  cell of \<open>2500ms\<close> in one report and one of \<open>2.5s\<close> in the other compare as equal.
\<close>

theorem parse_time_in_seconds:
  "(strip v1 = p1 @ ucs ''ms'' \<and> float p1 = Some x1
      \<longrightarrow> parse_time float (Some v1) = Inr (Some (x1 / 1000)))
   \<and> (strip v2 = p2 @ ucs ''s'' \<and> \<not> endswith p2 (ucs ''m'') \<and> float p2 = Some x2
      \<longrightarrow> parse_time float (Some v2) = Inr (Some x2))
   \<and> (v3 \<noteq> [] \<and> v3 \<noteq> ucs ''N/A'' \<and> \<not> endswith (strip v3) (ucs ''s'') \<and> float (strip v3) = Some x3
      \<longrightarrow> parse_time float (Some v3) = Inr (Some x3))
   \<and> parse_time float (Some []) = Inr None
   \<and> parse_time float (Some (ucs ''N/A'')) = Inr None
   \<and> (read_row float row = Inr vals
      \<longrightarrow> parse_time float (c_LCP row) = Inr (lcp vals)
        \<and> parse_time float (c_TBT row) = Inr (tbt vals)
        \<and> parse_time float (c_FCP row) = Inr (fcp vals)
        \<and> parse_time float (c_TTFB row) = Inr (ttfb vals))
   \<and> compare_metric float_decimal [example_row ''50'' ''2500ms'' ''N/A'']
        [example_row ''50'' ''2.5s'' ''N/A''] ''lcp'' = Inr (Some (5 / 2, 5 / 2, 0, 0))"
proof -
  have "compare_metric float_decimal [example_row ''50'' ''2500ms'' ''N/A'']
        [example_row ''50'' ''2.5s'' ''N/A''] ''lcp'' = Inr (Some (5 / 2, 5 / 2, 0, 0))"
    by (simp add: compare_eval)
  moreover have "parse_time float (Some v3) = Inr (Some x3)"
    if "v3 \<noteq> []" "v3 \<noteq> ucs ''N/A''" "\<not> endswith (strip v3) (ucs ''s'')" "float (strip v3) = Some x3"
    using parse_time_bare [of v3 float] that by simp
  ultimately show ?thesis
    using parse_time_ms [of v1 p1 float x1] parse_time_s [of v2 p2 float x2]
      parse_time_absent [of float] read_row_fields [of float row vals]
    by blast
qed

theorem parse_time_in_seconds_witness:
  "parse_time float_decimal (Some (ucs '' 2500ms'')) = Inr (Some (25 / 10))
   \<and> parse_time float_decimal (Some (ucs ''2.50s'')) = Inr (Some (25 / 10))
   \<and> parse_time float_decimal (Some (ucs ''2.5'')) = Inr (Some (25 / 10))
   \<and> parse_time float_decimal (c_TTFB (example_row ''50'' ''2500ms'' ''1.2s'')) = Inr (Some (12 / 10))"
proof -
  let ?row = "example_row ''50'' ''2500ms'' ''1.2s''"
  let ?vals = "\<lparr>score = Some 50, lcp = Some (5 / 2), tbt = None, fcp = None,
     cls = Some (1 / 10), ttfb = Some (12 / 10 :: real)\<rparr>"
  have h1: "strip (ucs '' 2500ms'') = ucs ''2500'' @ ucs ''ms'' \<and> float_decimal (ucs ''2500'') = Some 2500"
    by (simp add: compare_eval)
  have h2: "strip (ucs ''2.50s'') = ucs ''2.50'' @ ucs ''s'' \<and> \<not> endswith (ucs ''2.50'') (ucs ''m'')
      \<and> float_decimal (ucs ''2.50'') = Some (25 / 10)"
    by (simp add: compare_eval)
  have h3: "ucs ''2.5'' \<noteq> [] \<and> ucs ''2.5'' \<noteq> ucs ''N/A'' \<and> \<not> endswith (strip (ucs ''2.5'')) (ucs ''s'')
      \<and> float_decimal (strip (ucs ''2.5'')) = Some (25 / 10)"
    by (simp add: compare_eval)
  have h4: "read_row float_decimal ?row = Inr ?vals"
    by (simp add: compare_eval)
  from parse_time_in_seconds [of "ucs '' 2500ms''" "ucs ''2500''" float_decimal 2500 "ucs ''2.50s''"
      "ucs ''2.50''" "25 / 10" "ucs ''2.5''" "25 / 10" ?row ?vals] h1 h2 h3 h4
  show ?thesis by simp
qed

section \<open>Facts about the issue list\<close>

lemma sorted_issue_keys: "sorted (map issue_key (sort_issues xs))"
  by (simp add: sort_issues_def)

lemma issue_key_le:
  "issue_key a \<le> issue_key b \<longleftrightarrow>
     level_order (i_level a) < level_order (i_level b)
     \<or> (level_order (i_level a) = level_order (i_level b) \<and> value_or_0 b \<le> value_or_0 a)"
  by (auto simp: issue_key_def less_eq_prod_def)

lemma sort_issues_ordered:
  assumes "i < j" "j < length (sort_issues xs)"
  shows "level_order (i_level (sort_issues xs ! i)) \<le> level_order (i_level (sort_issues xs ! j))
    \<and> (level_order (i_level (sort_issues xs ! i)) = level_order (i_level (sort_issues xs ! j))
        \<longrightarrow> value_or_0 (sort_issues xs ! j) \<le> value_or_0 (sort_issues xs ! i))"
proof -
  let ?s = "sort_issues xs"
  from assms have "map issue_key ?s ! i \<le> map issue_key ?s ! j"
    using sorted_issue_keys [of xs] by (simp add: sorted_iff_nth_mono del: map_map)
  with assms have "issue_key (?s ! i) \<le> issue_key (?s ! j)" by simp
  then show ?thesis by (auto simp: issue_key_le)
qed

lemma sort_issues_mset: "mset (sort_issues xs) = mset xs"
  by (simp add: sort_issues_def)

lemma sort_issues_stable:
  "filter (\<lambda>x. issue_key x = k) (sort_issues xs) = filter (\<lambda>x. issue_key x = k) xs"
  by (simp add: sort_issues_def sort_key_stable)

lemma sort_issues_level_first:
  assumes "a \<in> set xs" "b \<in> set xs"
    and "level_order (i_level a) < level_order (i_level b)"
  shows "\<exists>i j. i < j \<and> j < length (sort_issues xs)
     \<and> sort_issues xs ! i = a \<and> sort_issues xs ! j = b"
proof -
  let ?s = "sort_issues xs"
  have "set ?s = set xs" by (simp add: sort_issues_def)
  with assms obtain i j where ij: "i < length ?s" "?s ! i = a" "j < length ?s" "?s ! j = b"
    by (metis in_set_conv_nth)
  have "i < j"
  proof (rule ccontr)
    assume "\<not> i < j"
    then consider "i = j" | "j < i" by linarith
    then show False
    proof cases
      case 1
      with ij assms(3) show False by simp
    next
      case 2
      from sort_issues_ordered [OF 2 ij(1)] ij assms(3) show False by simp
    qed
  qed
  with ij show ?thesis by blast
qed

lemma fired_levels:
  "x \<in> set (fired_issues m) \<Longrightarrow> i_level x \<in> {''HIGH'', ''MED'', ''LOW''}"
  by (auto simp: fired_issues_def add_issue_def Let_def split: if_splits)

lemma filter_nth_pair:
  assumes "i < j" "j < length xs" "P (xs ! i)" "P (xs ! j)"
  shows "\<exists>i' j'. i' < j' \<and> j' < length (filter P xs)
     \<and> filter P xs ! i' = xs ! i \<and> filter P xs ! j' = xs ! j"
proof -
  let ?pre = "take i xs" and ?mid = "take (j - Suc i) (drop (Suc i) xs)" and ?post = "drop (Suc j) xs"
  from assms have i: "i < length xs" by simp
  have "xs = ?pre @ xs ! i # drop (Suc i) xs"
    using i by (simp add: id_take_nth_drop [symmetric])
  moreover have "drop (Suc i) xs = ?mid @ drop (Suc i) xs ! (j - Suc i) # drop (Suc (j - Suc i)) (drop (Suc i) xs)"
    using assms by (intro id_take_nth_drop) simp
  moreover have "drop (Suc i) xs ! (j - Suc i) = xs ! j" using assms by simp
  moreover have "drop (Suc (j - Suc i)) (drop (Suc i) xs) = ?post" using assms by simp
  ultimately have xs: "xs = ?pre @ xs ! i # ?mid @ xs ! j # ?post" by simp
  have "filter P xs = filter P ?pre @ xs ! i # filter P ?mid @ xs ! j # filter P ?post"
    using assms(3,4) by (subst xs) simp
  then have f: "filter P xs = filter P ?pre @ xs ! i # filter P ?mid @ xs ! j # filter P ?post" .
  let ?i' = "length (filter P ?pre)"
  let ?j' = "length (filter P ?pre) + Suc (length (filter P ?mid))"
  have "filter P xs ! ?i' = xs ! i" by (subst f) (simp add: nth_append)
  moreover have "filter P xs ! ?j' = xs ! j"
    by (subst f) (simp add: nth_append nth_Cons')
  moreover have "?j' < length (filter P xs)" by (subst f) simp
  moreover have "?i' < ?j'" by simp
  ultimately show ?thesis by blast
qed

lemma nth_pair_of_filter:
  assumes "i' < j'" "j' < length (filter P xs)"
  shows "\<exists>i j. i < j \<and> j < length xs \<and> xs ! i = filter P xs ! i' \<and> xs ! j = filter P xs ! j'"
  using assms
proof (induction xs arbitrary: i' j')
  case Nil
  then show ?case by simp
next
  case (Cons x xs)
  show ?case
  proof (cases "P x")
    case False
    with Cons.prems have "i' < j'" "j' < length (filter P xs)" by simp_all
    from Cons.IH [OF this] obtain i j where
      "i < j" "j < length xs" "xs ! i = filter P xs ! i'" "xs ! j = filter P xs ! j'" by blast
    with False show ?thesis
      by (intro exI [of _ "Suc i"] exI [of _ "Suc j"]) simp
  next
    case True
    show ?thesis
    proof (cases i')
      case 0
      from Cons.prems True obtain k where k: "j' = Suc k" "k < length (filter P xs)"
        by (cases j') auto
      then have "filter P xs ! k \<in> set (filter P xs)" by (intro nth_mem)
      then have "filter P xs ! k \<in> set xs" by simp
      then obtain j where "j < length xs" "xs ! j = filter P xs ! k"
        by (auto simp: in_set_conv_nth)
      with True 0 k show ?thesis
        by (intro exI [of _ 0] exI [of _ "Suc j"]) simp
    next
      case (Suc i0)
      with Cons.prems True obtain k where k: "j' = Suc k" "i0 < k" "k < length (filter P xs)"
        by (cases j') auto
      from Cons.IH [OF k(2,3)] obtain i j where
        "i < j" "j < length xs" "xs ! i = filter P xs ! i0" "xs ! j = filter P xs ! k" by blast
      with True Suc k show ?thesis
        by (intro exI [of _ "Suc i"] exI [of _ "Suc j"]) simp
    qed
  qed
qed

lemma sort_issues_keeps_order:
  assumes "i < j" "j < length (sort_issues xs)"
    and "issue_key (sort_issues xs ! i) = issue_key (sort_issues xs ! j)"
  shows "\<exists>i' j'. i' < j' \<and> j' < length xs
     \<and> xs ! i' = sort_issues xs ! i \<and> xs ! j' = sort_issues xs ! j"
proof -
  let ?k = "issue_key (sort_issues xs ! j)"
  let ?P = "\<lambda>x. issue_key x = ?k"
  from filter_nth_pair [of i j "sort_issues xs" ?P] assms obtain a b where
    ab: "a < b" "b < length (filter ?P (sort_issues xs))"
      "filter ?P (sort_issues xs) ! a = sort_issues xs ! i"
      "filter ?P (sort_issues xs) ! b = sort_issues xs ! j" by auto
  have st: "filter ?P (sort_issues xs) = filter ?P xs" by (rule sort_issues_stable)
  from nth_pair_of_filter [of a b ?P xs] ab(1,2) st obtain i' j' where
    "i' < j'" "j' < length xs" "xs ! i' = filter ?P xs ! a" "xs ! j' = filter ?P xs ! b"
    by auto
  with ab(3,4) st show ?thesis by auto
qed

section \<open>Claim about the order of the issue list\<close>

text \<open>
  C3. For every record of metrics the issue list is ordered by severity, \<open>HIGH\<close>
  before \<open>MED\<close> before \<open>LOW\<close>, and inside one severity by descending value, an
  issue without a value counting as 0; the sort keeps every fired issue and is stable:
  issues of equal severity and value stay in the order of their rules. Whatever the
  order in which two issues were collected, a \<open>HIGH\<close> one comes before a \<open>MED\<close> one;
  with a TTFB of 1500 and a TBT of 700 the TTFB issue precedes the TBT issue. In the
  busy example the ten issues come out by severity, then by value, the issue without a
  value last in its severity; and among issues of one severity with the values 3,
  absent, -5 and 7 the absent one is placed as 0, between 3 and -5.
\<close>

theorem issues_ordered_by_severity_then_value:
  "(\<forall>i j. i < j \<and> j < length (build_issue_list m) \<longrightarrow>
      level_order (i_level (build_issue_list m ! i)) \<le> level_order (i_level (build_issue_list m ! j))
      \<and> (level_order (i_level (build_issue_list m ! i)) = level_order (i_level (build_issue_list m ! j))
          \<longrightarrow> (case i_value (build_issue_list m ! j) of None \<Rightarrow> 0 | Some v \<Rightarrow> v)
              \<le> (case i_value (build_issue_list m ! i) of None \<Rightarrow> 0 | Some v \<Rightarrow> v)))
   \<and> (\<forall>x \<in> set (build_issue_list m). i_level x \<in> {''HIGH'', ''MED'', ''LOW''})
   \<and> level_order ''HIGH'' < level_order ''MED'' \<and> level_order ''MED'' < level_order ''LOW''
   \<and> mset (build_issue_list m) = mset (fired_issues m)
   \<and> (\<forall>i j. i < j \<and> j < length (build_issue_list m)
        \<and> i_level (build_issue_list m ! i) = i_level (build_issue_list m ! j)
        \<and> (case i_value (build_issue_list m ! i) of None \<Rightarrow> 0 | Some v \<Rightarrow> v)
            = (case i_value (build_issue_list m ! j) of None \<Rightarrow> 0 | Some v \<Rightarrow> v)
        \<longrightarrow> (\<exists>i' j'. i' < j' \<and> j' < length (fired_issues m)
              \<and> fired_issues m ! i' = build_issue_list m ! i
              \<and> fired_issues m ! j' = build_issue_list m ! j))
   \<and> (a \<in> set xs \<and> b \<in> set xs \<and> i_level a = ''HIGH'' \<and> i_level b = ''MED''
        \<longrightarrow> (\<exists>i j. i < j \<and> j < length (sort_issues xs)
              \<and> sort_issues xs ! i = a \<and> sort_issues xs ! j = b))
   \<and> (m_ttfb m = Some 1500 \<and> m_tbt m = Some 700
        \<longrightarrow> (\<exists>i j. i < j \<and> j < length (build_issue_list m)
              \<and> i_metric (build_issue_list m ! i) = ''TTFB''
              \<and> i_auditId (build_issue_list m ! i) = Some ''server-response-time''
              \<and> i_metric (build_issue_list m ! j) = ''TBT''
              \<and> i_auditId (build_issue_list m ! j) = Some ''total-blocking-time''))
   \<and> map i_metric (build_issue_list example_metrics) = [''TTFB'', ''TBT'']
   \<and> map (\<lambda>x. (i_level x, i_auditId x, i_value x)) (build_issue_list busy_metrics) =
        [(''HIGH'', Some ''largest-contentful-paint'', Some 5000),
         (''HIGH'', Some ''lcp-lazy-loaded'', Some 5000),
         (''HIGH'', Some ''server-response-time'', Some 1500),
         (''HIGH'', Some ''interaction-to-next-paint'', Some 600),
         (''MED'', Some ''first-contentful-paint'', Some 3500),
         (''MED'', Some ''total-blocking-time'', Some 700),
         (''MED'', Some ''bootup-time'', Some 700),
         (''MED'', Some ''cumulative-layout-shift'', Some (5 / 10)),
         (''MED'', Some ''render-blocking-resources'', None),
         (''LOW'', Some ''unused-javascript'', None)]
   \<and> sort_issues [plain_issue ''MED'' (Some 3), plain_issue ''MED'' None,
          plain_issue ''MED'' (Some (- 5)), plain_issue ''HIGH'' None,
          plain_issue ''MED'' (Some 7), plain_issue ''MED'' (Some 0)]
        = [plain_issue ''HIGH'' None, plain_issue ''MED'' (Some 7), plain_issue ''MED'' (Some 3),
           plain_issue ''MED'' None, plain_issue ''MED'' (Some 0), plain_issue ''MED'' (Some (- 5))]"
proof -
  let ?val = "\<lambda>x. case i_value x of None \<Rightarrow> 0 | Some v \<Rightarrow> v"
  have val: "value_or_0 x = ?val x" for x
    by (simp add: value_or_0_def)
  have ordered: "\<forall>i j. i < j \<and> j < length (build_issue_list m) \<longrightarrow>
      level_order (i_level (build_issue_list m ! i)) \<le> level_order (i_level (build_issue_list m ! j))
      \<and> (level_order (i_level (build_issue_list m ! i)) = level_order (i_level (build_issue_list m ! j))
          \<longrightarrow> ?val (build_issue_list m ! j) \<le> ?val (build_issue_list m ! i))"
    unfolding build_issue_list_def val [symmetric] using sort_issues_ordered by blast
  have perm: "mset (build_issue_list m) = mset (fired_issues m)"
    by (simp add: build_issue_list_def sort_issues_mset)
  have levels: "\<forall>x \<in> set (build_issue_list m). i_level x \<in> {''HIGH'', ''MED'', ''LOW''}"
  proof
    fix x assume "x \<in> set (build_issue_list m)"
    then have "x \<in># mset (build_issue_list m)" by simp
    then have "x \<in> set (fired_issues m)" by (simp only: perm set_mset_mset)
    then show "i_level x \<in> {''HIGH'', ''MED'', ''LOW''}" by (rule fired_levels)
  qed
  have ranks: "level_order ''HIGH'' < level_order ''MED'' \<and> level_order ''MED'' < level_order ''LOW''"
    by (simp add: level_order_def)
  have stable: "\<forall>i j. i < j \<and> j < length (build_issue_list m)
        \<and> i_level (build_issue_list m ! i) = i_level (build_issue_list m ! j)
        \<and> ?val (build_issue_list m ! i) = ?val (build_issue_list m ! j)
        \<longrightarrow> (\<exists>i' j'. i' < j' \<and> j' < length (fired_issues m)
              \<and> fired_issues m ! i' = build_issue_list m ! i
              \<and> fired_issues m ! j' = build_issue_list m ! j)"
  proof (intro allI impI)
    fix i j
    assume h: "i < j \<and> j < length (build_issue_list m)
        \<and> i_level (build_issue_list m ! i) = i_level (build_issue_list m ! j)
        \<and> ?val (build_issue_list m ! i) = ?val (build_issue_list m ! j)"
    then have "issue_key (sort_issues (fired_issues m) ! i) = issue_key (sort_issues (fired_issues m) ! j)"
      by (simp add: issue_key_def val build_issue_list_def)
    with h show "\<exists>i' j'. i' < j' \<and> j' < length (fired_issues m)
              \<and> fired_issues m ! i' = build_issue_list m ! i
              \<and> fired_issues m ! j' = build_issue_list m ! j"
      unfolding build_issue_list_def by (intro sort_issues_keeps_order) simp_all
  qed
  have any_order: "\<exists>i j. i < j \<and> j < length (sort_issues xs)
      \<and> sort_issues xs ! i = a \<and> sort_issues xs ! j = b"
    if "a \<in> set xs" "b \<in> set xs" "i_level a = ''HIGH''" "i_level b = ''MED''"
    using that ranks by (intro sort_issues_level_first) simp_all
  have ttfb_tbt: "\<exists>i j. i < j \<and> j < length (build_issue_list m)
      \<and> i_metric (build_issue_list m ! i) = ''TTFB''
      \<and> i_auditId (build_issue_list m ! i) = Some ''server-response-time''
      \<and> i_metric (build_issue_list m ! j) = ''TBT''
      \<and> i_auditId (build_issue_list m ! j) = Some ''total-blocking-time''"
    if v: "m_ttfb m = Some 1500" "m_tbt m = Some 700"
  proof -
    let ?a = "add_issue (auditEvidence m) ''HIGH'' ''TTFB'' (m_ttfb m) (Some ''server-response-time'')"
    let ?b = "add_issue (auditEvidence m) ''MED'' ''TBT'' (m_tbt m) (Some ''total-blocking-time'')"
    have "?a \<in> set (fired_issues m)" "?b \<in> set (fired_issues m)"
      using v by (simp_all add: fired_issues_def Let_def above_def)
    moreover have "level_order (i_level ?a) < level_order (i_level ?b)"
      by (simp add: add_issue_def level_order_def)
    ultimately obtain i j where "i < j" "j < length (sort_issues (fired_issues m))"
      "sort_issues (fired_issues m) ! i = ?a" "sort_issues (fired_issues m) ! j = ?b"
      using sort_issues_level_first by blast
    then show ?thesis
      unfolding build_issue_list_def by (intro exI [of _ i] exI [of _ j]) (simp add: add_issue_def)
  qed
  have example: "map i_metric (build_issue_list example_metrics) = [''TTFB'', ''TBT'']"
    by (simp add: build_issue_list_def sort_issues_def fired_issues_def add_issue_def above_def
        example_metrics_def issue_key_def level_order_def value_or_0_def)
  have busy: "map (\<lambda>x. (i_level x, i_auditId x, i_value x)) (build_issue_list busy_metrics) =
        [(''HIGH'', Some ''largest-contentful-paint'', Some 5000),
         (''HIGH'', Some ''lcp-lazy-loaded'', Some 5000),
         (''HIGH'', Some ''server-response-time'', Some 1500),
         (''HIGH'', Some ''interaction-to-next-paint'', Some 600),
         (''MED'', Some ''first-contentful-paint'', Some 3500),
         (''MED'', Some ''total-blocking-time'', Some 700),
         (''MED'', Some ''bootup-time'', Some 700),
         (''MED'', Some ''cumulative-layout-shift'', Some (5 / 10)),
         (''MED'', Some ''render-blocking-resources'', None),
         (''LOW'', Some ''unused-javascript'', None)]"
    by (simp add: build_issue_list_def sort_issues_def fired_issues_def add_issue_def above_def
        busy_metrics_def issue_key_def level_order_def value_or_0_def)
  have absent_as_0: "sort_issues [plain_issue ''MED'' (Some 3), plain_issue ''MED'' None,
          plain_issue ''MED'' (Some (- 5)), plain_issue ''HIGH'' None,
          plain_issue ''MED'' (Some 7), plain_issue ''MED'' (Some 0)]
        = [plain_issue ''HIGH'' None, plain_issue ''MED'' (Some 7), plain_issue ''MED'' (Some 3),
           plain_issue ''MED'' None, plain_issue ''MED'' (Some 0), plain_issue ''MED'' (Some (- 5))]"
    by (simp add: sort_issues_def plain_issue_def add_issue_def issue_key_def level_order_def
        value_or_0_def)
  from ordered levels ranks perm stable any_order ttfb_tbt example busy absent_as_0
  show ?thesis by blast
qed

theorem issues_ordered_by_severity_then_value_witness:
  "(2::nat) < 3 \<and> 3 < length (build_issue_list busy_metrics)
   \<and> i_level (build_issue_list busy_metrics ! 2) = ''HIGH''
   \<and> i_level (build_issue_list busy_metrics ! 3) = ''HIGH''
   \<and> i_value (build_issue_list busy_metrics ! 2) = Some 1500
   \<and> i_value (build_issue_list busy_metrics ! 3) = Some 600
   \<and> (0::nat) < 1 \<and> 1 < length (build_issue_list busy_metrics)
   \<and> i_level (build_issue_list busy_metrics ! 0) = i_level (build_issue_list busy_metrics ! 1)
   \<and> i_value (build_issue_list busy_metrics ! 0) = i_value (build_issue_list busy_metrics ! 1)
   \<and> (\<exists>i' j'. i' < j' \<and> j' < length (fired_issues busy_metrics)
        \<and> fired_issues busy_metrics ! i' = build_issue_list busy_metrics ! 0
        \<and> fired_issues busy_metrics ! j' = build_issue_list busy_metrics ! 1)
   \<and> build_issue_list busy_metrics ! 9 \<in> set (build_issue_list busy_metrics)
   \<and> i_level (build_issue_list busy_metrics ! 9) = ''LOW''
   \<and> m_ttfb example_metrics = Some 1500 \<and> m_tbt example_metrics = Some 700
   \<and> (\<exists>i j. i < j \<and> j < length (build_issue_list example_metrics)
        \<and> i_metric (build_issue_list example_metrics ! i) = ''TTFB''
        \<and> i_metric (build_issue_list example_metrics ! j) = ''TBT'')
   \<and> (\<exists>i j. i < j
        \<and> sort_issues [plain_issue ''MED'' (Some 700), plain_issue ''HIGH'' (Some 1500)] ! i
            = plain_issue ''HIGH'' (Some 1500)
        \<and> sort_issues [plain_issue ''MED'' (Some 700), plain_issue ''HIGH'' (Some 1500)] ! j
            = plain_issue ''MED'' (Some 700))"
proof -
  let ?L = "build_issue_list busy_metrics"
  let ?a = "plain_issue ''HIGH'' (Some 1500)"
  let ?b = "plain_issue ''MED'' (Some 700)"
  note busy = issues_ordered_by_severity_then_value [of busy_metrics ?a "[?b, ?a]" ?b]
  note small = issues_ordered_by_severity_then_value [of example_metrics ?a "[?b, ?a]" ?b]
  have l: "?L =
      [add_issue [] ''HIGH'' ''LCP'' (Some 5000) (Some ''largest-contentful-paint''),
       add_issue [] ''HIGH'' ''LCP'' (Some 5000) (Some ''lcp-lazy-loaded''),
       add_issue [] ''HIGH'' ''TTFB'' (Some 1500) (Some ''server-response-time''),
       add_issue [] ''HIGH'' ''INP'' (Some 600) (Some ''interaction-to-next-paint''),
       add_issue [] ''MED'' ''FCP'' (Some 3500) (Some ''first-contentful-paint''),
       add_issue [] ''MED'' ''TBT'' (Some 700) (Some ''total-blocking-time''),
       add_issue [] ''MED'' ''TBT'' (Some 700) (Some ''bootup-time''),
       add_issue [] ''MED'' ''CLS'' (Some (5 / 10)) (Some ''cumulative-layout-shift''),
       add_issue [] ''MED'' ''FCP'' None (Some ''render-blocking-resources''),
       add_issue [] ''LOW'' ''TBT'' None (Some ''unused-javascript'')]"
    by (simp add: build_issue_list_def sort_issues_def fired_issues_def add_issue_def above_def
        busy_metrics_def issue_key_def level_order_def value_or_0_def)
  have len: "(2::nat) < 3 \<and> 3 < length ?L" "(0::nat) < 1 \<and> 1 < length ?L" "9 < length ?L"
    by (simp_all add: l)
  have at: "i_level (?L ! 0) = ''HIGH''" "i_level (?L ! 1) = ''HIGH''"
    "i_level (?L ! 2) = ''HIGH''" "i_level (?L ! 3) = ''HIGH''" "i_level (?L ! 9) = ''LOW''"
    "i_value (?L ! 0) = Some 5000" "i_value (?L ! 1) = Some 5000"
    "i_value (?L ! 2) = Some 1500" "i_value (?L ! 3) = Some 600"
    by (simp_all add: l add_issue_def)
  from len(3) have mem: "?L ! 9 \<in> set ?L" by (intro nth_mem)
  have ordered: "level_order (i_level (?L ! 2)) \<le> level_order (i_level (?L ! 3))
      \<and> (level_order (i_level (?L ! 2)) = level_order (i_level (?L ! 3))
          \<longrightarrow> (case i_value (?L ! 3) of None \<Rightarrow> 0 | Some v \<Rightarrow> v)
              \<le> (case i_value (?L ! 2) of None \<Rightarrow> 0 | Some v \<Rightarrow> v))"
    using busy len(1) by blast
  have level9: "i_level (?L ! 9) \<in> {''HIGH'', ''MED'', ''LOW''}"
    using busy mem by blast
  have same: "i_level (?L ! 0) = i_level (?L ! 1)
      \<and> (case i_value (?L ! 0) of None \<Rightarrow> 0 | Some v \<Rightarrow> v)
         = (case i_value (?L ! 1) of None \<Rightarrow> 0 | Some v \<Rightarrow> v)"
    unfolding at by simp
  have stable: "\<exists>i' j'. i' < j' \<and> j' < length (fired_issues busy_metrics)
        \<and> fired_issues busy_metrics ! i' = ?L ! 0 \<and> fired_issues busy_metrics ! j' = ?L ! 1"
    using busy len(2) same by blast
  have v: "m_ttfb example_metrics = Some 1500 \<and> m_tbt example_metrics = Some 700"
    by (simp add: example_metrics_def)
  have ttfb_tbt: "\<exists>i j. i < j \<and> j < length (build_issue_list example_metrics)
        \<and> i_metric (build_issue_list example_metrics ! i) = ''TTFB''
        \<and> i_metric (build_issue_list example_metrics ! j) = ''TBT''"
    using small v by blast
  have h: "?a \<in> set [?b, ?a] \<and> ?b \<in> set [?b, ?a] \<and> i_level ?a = ''HIGH'' \<and> i_level ?b = ''MED''"
    by (simp add: plain_issue_def add_issue_def)
  have any_order: "\<exists>i j. i < j \<and> sort_issues [?b, ?a] ! i = ?a \<and> sort_issues [?b, ?a] ! j = ?b"
    using busy h by blast
  from len at ordered level9 same stable v ttfb_tbt any_order mem show ?thesis
    by simp
qed

section \<open>Facts about the extractor\<close>

lemma bind_err_eq_Inr: "bind_err r f = Inr y \<longleftrightarrow> (\<exists>v. r = Inr v \<and> f v = Inr y)"
  by (cases r) simp_all

lemma get_eq_Inr: "get v k = Inr w \<longleftrightarrow> is_dict v \<and> w = field v k"
  by (cases v) auto

lemma get_or_dict_eq_Inr: "get (or_dict v) k = Inr w \<longleftrightarrow> dict_or_empty v \<and> w = field v k"
  by (cases v) (auto simp: dict_or_empty_def or_dict_def py_or_def dict_get_def)

lemma is_dict_or_dict: "is_dict (or_dict v) \<longleftrightarrow> dict_or_empty v"
  by (cases v) (auto simp: dict_or_empty_def or_dict_def py_or_def)

lemma field_or_dict: "field (or_dict v) k = field v k"
  by (cases v) (auto simp: or_dict_def py_or_def dict_get_def)

lemma to_float_eq_Inr: "to_float v = Inr x \<longleftrightarrow> convertible v \<and> x = numeric v"
  by (cases v) auto

lemma field_falsy:
  assumes "dict_or_empty a" "\<not> truthy a"
  shows "field a k = JNull"
  using assms by (cases a) (simp_all add: dict_get_def)

lemma audit_numeric_eq_Inr:
  "audit_numeric lhr audit_id = Inr x \<longleftrightarrow>
     is_dict lhr \<and> dict_or_empty (field lhr ''audits'') \<and> numeric_readable lhr audit_id
     \<and> x = numeric_at lhr audit_id"
proof (cases "is_dict lhr \<and> dict_or_empty (field lhr ''audits'')")
  case False
  then show ?thesis
    by (auto simp: audit_numeric_def bind_err_eq_Inr get_eq_Inr is_dict_or_dict field_or_dict)
next
  case True
  let ?a = "audit_of lhr audit_id"
  have a: "get (or_dict (field lhr ''audits'')) audit_id = Inr ?a"
    using True by (simp add: get_or_dict_eq_Inr audit_of_def)
  have l: "get lhr ''audits'' = Inr (field lhr ''audits'')"
    using True by (simp add: get_eq_Inr)
  show ?thesis
  proof (cases "truthy ?a")
    case truthy: True
    then have "dict_or_empty ?a \<longleftrightarrow> is_dict ?a" by (simp add: dict_or_empty_def)
    with truthy True show ?thesis
      by (auto simp: audit_numeric_def l a bind_err_eq_Inr get_eq_Inr to_float_eq_Inr
          numeric_readable_def numeric_at_def)
  next
    case False
    then have d: "dict_or_empty ?a" by (simp add: dict_or_empty_def)
    from field_falsy [OF d False] have "field ?a ''numericValue'' = JNull" .
    with False True d show ?thesis
      by (auto simp: audit_numeric_def l a numeric_readable_def numeric_at_def)
  qed
qed

lemma audit_items_eq_Inr:
  "audit_items lhr audit_id = Inr xs \<longleftrightarrow>
     is_dict lhr \<and> dict_or_empty (field lhr ''audits'')
     \<and> dict_or_empty (audit_of lhr audit_id)
     \<and> dict_or_empty (field (audit_of lhr audit_id) ''details'')
     \<and> xs = items_at lhr audit_id"
  by (auto simp: audit_items_def items_at_def audit_of_def Let_def bind_err_eq_Inr get_eq_Inr
      is_dict_or_dict field_or_dict)

lemma audit_or_empty_eq_Inr:
  "audit_or_empty lhr audit_id = Inr a \<longleftrightarrow>
     is_dict lhr \<and> dict_or_empty (field lhr ''audits'') \<and> a = or_dict (audit_of lhr audit_id)"
  by (auto simp: audit_or_empty_def audit_of_def bind_err_eq_Inr get_eq_Inr is_dict_or_dict
      field_or_dict)

lemma extract_metrics_eq_Inr:
  "extract_metrics lhr = Inr m \<longleftrightarrow> extractable lhr \<and> m = extracted lhr"
  unfolding extract_metrics_def Let_def
  by (simp add: bind_err_eq_Inr audit_numeric_eq_Inr audit_items_eq_Inr audit_or_empty_eq_Inr
      get_eq_Inr is_dict_or_dict field_or_dict to_float_eq_Inr extractable_def extracted_def
      cong: conj_cong)
    (auto split: option.splits)

section \<open>Claim about the metric extractor\<close>

text \<open>
  C4, as the code has it. The extractor raises nothing on every extractable report: a
  report that is a \<open>dict\<close> in which \<open>audits\<close>, \<open>categories\<close>, the
  \<open>performance\<close> of the categories, each audit the extractor reads and the
  \<open>details\<close> it walks into are each a \<open>dict\<close> or count as false, and in which no
  timing and not the score is an integer that \<open>float\<close> refuses. It then returns the
  metrics; each of the six timings and the score is the number found at its place in the
  report and is absent when the place is missing or holds \<open>null\<close>, a text, a list or a
  \<open>dict\<close>. A boolean at that place counts as the number 1 or 0, as it does for
  \<open>isinstance\<close>. INP is read from the stable audit and, when that gives nothing, from
  the experimental one. No condition of this shape is more than is needed: a report on
  which the extractor returns is extractable.
\<close>

theorem extract_metrics_returns_on_extractable:
  "(extractable lhr \<longrightarrow>
      (\<exists>m. extract_metrics lhr = Inr m
         \<and> m_lcp m = numeric_at lhr ''largest-contentful-paint''
         \<and> m_cls m = numeric_at lhr ''cumulative-layout-shift''
         \<and> m_tbt m = numeric_at lhr ''total-blocking-time''
         \<and> m_fcp m = numeric_at lhr ''first-contentful-paint''
         \<and> m_ttfb m = numeric_at lhr ''server-response-time''
         \<and> m_inp m = (case numeric_at lhr ''interaction-to-next-paint'' of
                        None \<Rightarrow> numeric_at lhr ''experimental-interaction-to-next-paint''
                      | Some x \<Rightarrow> Some x)
         \<and> perfScore m
             = numeric (field (field (field lhr ''categories'') ''performance'') ''score'')))
   \<and> (extract_metrics lhr = Inr m' \<longrightarrow> extractable lhr)
   \<and> numeric JNull = None \<and> numeric (JStr s) = None \<and> numeric (JArr xs) = None
   \<and> numeric (JObj kvs) = None \<and> numeric (JBool b) = Some (if b then 1 else 0)"
proof -
  have "\<exists>m. extract_metrics lhr = Inr m
         \<and> m_lcp m = numeric_at lhr ''largest-contentful-paint''
         \<and> m_cls m = numeric_at lhr ''cumulative-layout-shift''
         \<and> m_tbt m = numeric_at lhr ''total-blocking-time''
         \<and> m_fcp m = numeric_at lhr ''first-contentful-paint''
         \<and> m_ttfb m = numeric_at lhr ''server-response-time''
         \<and> m_inp m = (case numeric_at lhr ''interaction-to-next-paint'' of
                        None \<Rightarrow> numeric_at lhr ''experimental-interaction-to-next-paint''
                      | Some x \<Rightarrow> Some x)
         \<and> perfScore m
             = numeric (field (field (field lhr ''categories'') ''performance'') ''score'')"
    if "extractable lhr"
  proof -
    from that have "extract_metrics lhr = Inr (extracted lhr)"
      by (simp add: extract_metrics_eq_Inr)
    then show ?thesis
      by (intro exI [of _ "extracted lhr"]) (simp add: extracted_def)
  qed
  moreover have "extractable lhr" if "extract_metrics lhr = Inr m'"
    using that by (simp add: extract_metrics_eq_Inr)
  ultimately show ?thesis by simp
qed

theorem extract_metrics_returns_on_extractable_witness:
  "extractable sparse_report
   \<and> (\<exists>m. extract_metrics sparse_report = Inr m
        \<and> m_lcp m = None \<and> m_tbt m = Some 700 \<and> m_inp m = None \<and> perfScore m = None)"
proof -
  have w: "extractable sparse_report"
    by (simp add: extractable_def sparse_report_def dict_get_def dict_or_empty_def
        numeric_readable_def numeric_at_def audit_of_def too_large_def)
  have "numeric_at sparse_report ''largest-contentful-paint'' = None"
    "numeric_at sparse_report ''total-blocking-time'' = Some 700"
    "numeric_at sparse_report ''interaction-to-next-paint'' = None"
    "numeric_at sparse_report ''experimental-interaction-to-next-paint'' = None"
    "numeric (field (field (field sparse_report ''categories'') ''performance'') ''score'') = None"
    by (simp_all add: numeric_at_def audit_of_def sparse_report_def dict_get_def)
  with extract_metrics_returns_on_extractable [of sparse_report] w show ?thesis by auto
qed

text \<open>
  C4 as stated fails on the code. A report in which an audit is a text instead of a
  \<open>dict\<close> makes \<open>audit_numeric\<close> call \<open>get\<close> on the text, which raises
  \<open>AttributeError\<close>; a \<open>numericValue\<close> that is the integer \<open>10^309\<close> makes
  \<open>float\<close> raise \<open>OverflowError\<close>; and a \<open>numericValue\<close> that is the boolean
  \<open>true\<close>, no number in the report, is returned as 1.0 and not as absent.
\<close>

theorem extract_metrics_raises_counterexample:
  "extract_metrics (JObj [(''audits'', JObj [(''largest-contentful-paint'', JStr ''slow'')])])
     = Inl (AttributeError (no_get_message (JStr ''slow'')))
   \<and> extract_metrics (lcp_report (10 ^ 309)) = Inl OverflowError
   \<and> (case extract_metrics
         (JObj [(''audits'',
            JObj [(''largest-contentful-paint'', JObj [(''numericValue'', JBool True)])])])
       of Inl e \<Rightarrow> None | Inr m \<Rightarrow> m_lcp m) = Some 1"
  by (simp add: extract_metrics_def lcp_report_def audit_numeric_def audit_items_def
      audit_or_empty_def or_dict_def or_list_def py_or_def dict_get_def too_large_def)

section \<open>Facts about file names and repeated runs\<close>

lemma digit_char_is_digit: "d < 10 \<Longrightarrow> digit_char d \<in> set ''0123456789''"
  unfolding digit_char_def by (rule nth_mem) simp

lemma digit_char_inj:
  assumes "d < 10" "e < 10" "digit_char d = digit_char e"
  shows "d = e"
proof -
  have "distinct ''0123456789''" by simp
  moreover have "d < length ''0123456789''" "e < length ''0123456789''" using assms by simp_all
  ultimately show ?thesis
    using assms(3) unfolding digit_char_def by (simp only: nth_eq_iff_index_eq)
qed

lemma str_nat_nonempty: "str_nat n \<noteq> []"
  by (subst str_nat.simps) simp

lemma str_nat_digit_chars: "c \<in> set (str_nat n) \<Longrightarrow> c \<in> set ''0123456789''"
proof (induction n arbitrary: c rule: str_nat.induct)
  case (1 n)
  show ?case
  proof (cases "n < 10")
    case True
    with "1.prems" have "c = digit_char n"
      by (subst (asm) str_nat.simps) simp
    with True show ?thesis by (simp only: digit_char_is_digit)
  next
    case False
    with "1.prems" have "c \<in> set (str_nat (n div 10)) \<or> c = digit_char (n mod 10)"
      by (subst (asm) str_nat.simps) auto
    then show ?thesis
    proof
      assume "c \<in> set (str_nat (n div 10))"
      then show ?thesis by (rule "1.IH" [OF False])
    next
      have "n mod 10 < 10" by simp
      then have "digit_char (n mod 10) \<in> set ''0123456789''" by (rule digit_char_is_digit)
      moreover assume "c = digit_char (n mod 10)"
      ultimately show ?thesis by (simp only:)
    qed
  qed
qed

lemma str_nat_inj: "str_nat a = str_nat b \<Longrightarrow> a = b"
proof (induction a arbitrary: b rule: str_nat.induct)
  case (1 a)
  show ?case
  proof (cases "a < 10")
    case small_a: True
    show ?thesis
    proof (cases "b < 10")
      case True
      with small_a "1.prems" have "digit_char a = digit_char b"
        by (simp add: str_nat.simps [of a] str_nat.simps [of b])
      with small_a True show ?thesis by (rule digit_char_inj)
    next
      case False
      with small_a "1.prems" have "[digit_char a] = str_nat (b div 10) @ [digit_char (b mod 10)]"
        by (simp add: str_nat.simps [of a] str_nat.simps [of b])
      then have "str_nat (b div 10) = []" by simp
      with str_nat_nonempty show ?thesis by blast
    qed
  next
    case big_a: False
    show ?thesis
    proof (cases "b < 10")
      case True
      with big_a "1.prems" have "str_nat (a div 10) @ [digit_char (a mod 10)] = [digit_char b]"
        by (simp add: str_nat.simps [of a] str_nat.simps [of b])
      then have "str_nat (a div 10) = []" by simp
      with str_nat_nonempty show ?thesis by blast
    next
      case False
      with big_a "1.prems" have
        "str_nat (a div 10) @ [digit_char (a mod 10)] = str_nat (b div 10) @ [digit_char (b mod 10)]"
        by (simp add: str_nat.simps [of a] str_nat.simps [of b])
      then have q: "str_nat (a div 10) = str_nat (b div 10)"
        and r: "digit_char (a mod 10) = digit_char (b mod 10)" by simp_all
      from "1.IH" [OF big_a q] have "a div 10 = b div 10" .
      moreover have "a mod 10 = b mod 10"
        using r by (intro digit_char_inj) simp_all
      ultimately show ?thesis by (metis div_mult_mod_eq)
    qed
  qed
qed

lemma length_str_nat: "n < 10 ^ k \<Longrightarrow> 0 < k \<Longrightarrow> length (str_nat n) \<le> k"
proof (induction n arbitrary: k rule: str_nat.induct)
  case (1 n)
  show ?case
  proof (cases "n < 10")
    case True
    with "1.prems" show ?thesis by (simp add: str_nat.simps [of n])
  next
    case False
    from "1.prems" obtain j where k: "k = Suc j" by (cases k) auto
    with "1.prems" have "n div 10 < 10 ^ j"
      by (simp add: less_mult_imp_div_less mult.commute)
    moreover have "0 < j"
    proof (rule ccontr)
      assume "\<not> 0 < j"
      with k "1.prems" False show False by simp
    qed
    ultimately have "length (str_nat (n div 10)) \<le> j" by (rule "1.IH" [OF False])
    with False k show ?thesis by (simp add: str_nat.simps [of n])
  qed
qed

lemma ucs_inj: "ucs a = ucs b \<Longrightarrow> a = b"
proof -
  have "inj (of_char :: char \<Rightarrow> nat)" by (rule injI) simp
  then have "inj (map (of_char :: char \<Rightarrow> nat))" by simp
  then show "ucs a = ucs b \<Longrightarrow> a = b" unfolding ucs_def by (rule injD)
qed

lemma length_ucs [simp]: "length (ucs s) = length s"
  by (simp add: ucs_def)

lemma str_nat_digits: "c \<in> set (ucs (str_nat n)) \<Longrightarrow> is_digit c"
proof -
  assume "c \<in> set (ucs (str_nat n))"
  then obtain ch where "ch \<in> set (str_nat n)" "c = of_char ch"
    by (auto simp: ucs_def)
  moreover from this(1) have "ch \<in> set ''0123456789''" by (rule str_nat_digit_chars)
  ultimately have "c \<in> of_char ` set ''0123456789''" by blast
  then show ?thesis unfolding is_digit_def ucs_def by simp
qed

lemma squash_no_special: "c \<in> set (squash b cs) \<Longrightarrow> \<not> special c"
  by (induction cs arbitrary: b) (auto simp: special_def split: if_splits)

lemma squash_plain: "\<forall>c \<in> set cs. \<not> special c \<Longrightarrow> squash b cs = cs"
  by (induction cs arbitrary: b) simp_all

lemma sanitize_no_slash: "47 \<notin> set (sanitize_filename url [])"
proof
  assume "47 \<in> set (sanitize_filename url [])"
  then have "47 \<in> set (squash False (strip_scheme url))"
    by (auto simp: sanitize_filename_def dest: in_set_takeD)
  then have "\<not> special 47" by (rule squash_no_special)
  then show False by (simp add: special_def)
qed

lemma trailing_digits:
  assumes "A @ 110 # n1 = B @ 110 # n2"
    and "\<And>c. c \<in> set n1 \<Longrightarrow> is_digit c" "\<And>c. c \<in> set n2 \<Longrightarrow> is_digit c"
  shows "n1 = n2 \<and> A = B"
proof -
  have nd: "\<not> is_digit 110" by (simp add: is_digit_def)
  have tw: "takeWhile is_digit (rev (X @ 110 # ds)) = rev ds"
    if "\<And>c. c \<in> set ds \<Longrightarrow> is_digit c" for X ds
  proof -
    have "rev (X @ 110 # ds) = rev ds @ 110 # rev X" by simp
    moreover have "takeWhile is_digit (rev ds @ 110 # rev X)
        = rev ds @ takeWhile is_digit (110 # rev X)"
      by (rule takeWhile_append2) (simp add: that)
    moreover have "takeWhile is_digit (110 # rev X) = []"
      using nd by simp
    ultimately show ?thesis by simp
  qed
  from assms(1) have "takeWhile is_digit (rev (A @ 110 # n1))
      = takeWhile is_digit (rev (B @ 110 # n2))" by simp
  then have "rev n1 = rev n2" by (simp only: tw [OF assms(2)] tw [OF assms(3)])
  then have n: "n1 = n2" by simp
  with assms(1) have "A = B" by simp
  with n show ?thesis by simp
qed

lemma device_suffix:
  assumes "s1 @ ucs ''__'' @ d1 = s2 @ ucs ''__'' @ d2"
    and "d1 \<in> {ucs ''mobile'', ucs ''desktop''}" "d2 \<in> {ucs ''mobile'', ucs ''desktop''}"
  shows "d1 = d2 \<and> s1 = s2"
proof (cases "d1 = d2")
  case True
  with assms(1) show ?thesis by simp
next
  case False
  from assms(1) have "last (s1 @ ucs ''__'' @ d1) = last (s2 @ ucs ''__'' @ d2)" by simp
  with False assms(2,3) show ?thesis by auto
qed

lemma unique_id_eq:
  "unique_id_of d (run_id_of repeats i)
     = (if 1 < repeats then d @ ucs ''__run'' @ ucs (str_nat (i + 1)) else d)"
  by (simp add: unique_id_of_def run_id_of_def)

lemma unique_id_short:
  assumes "d \<in> {ucs ''mobile'', ucs ''desktop''}" "i + 1 < 10 ^ 18"
  shows "unique_id_of d (run_id_of repeats i) \<noteq> []
     \<and> take 30 (unique_id_of d (run_id_of repeats i)) = unique_id_of d (run_id_of repeats i)"
proof -
  have "length (str_nat (i + 1)) \<le> 18"
    using assms(2) by (rule length_str_nat) simp
  with assms(1) show ?thesis by (auto simp: unique_id_eq)
qed

lemma unique_id_inj:
  assumes "s1 @ ucs ''__'' @ unique_id_of d1 (run_id_of repeats i1)
      = s2 @ ucs ''__'' @ unique_id_of d2 (run_id_of repeats i2)"
    and "d1 \<in> {ucs ''mobile'', ucs ''desktop''}" "d2 \<in> {ucs ''mobile'', ucs ''desktop''}"
  shows "s1 = s2 \<and> d1 = d2 \<and> (1 < repeats \<longrightarrow> i1 = i2)"
proof (cases "1 < repeats")
  case False
  with assms(1) have "s1 @ ucs ''__'' @ d1 = s2 @ ucs ''__'' @ d2" by (simp add: unique_id_eq)
  from device_suffix [OF this assms(2,3)] False show ?thesis by simp
next
  case True
  with assms(1) have
    "(s1 @ ucs ''__'' @ d1 @ ucs ''__ru'') @ 110 # ucs (str_nat (i1 + 1))
      = (s2 @ ucs ''__'' @ d2 @ ucs ''__ru'') @ 110 # ucs (str_nat (i2 + 1))"
    by (simp add: unique_id_eq)
  from trailing_digits [OF this str_nat_digits str_nat_digits]
  have n: "ucs (str_nat (i1 + 1)) = ucs (str_nat (i2 + 1))"
    and r: "s1 @ ucs ''__'' @ d1 @ ucs ''__ru'' = s2 @ ucs ''__'' @ d2 @ ucs ''__ru''" by simp_all
  from n have "str_nat (i1 + 1) = str_nat (i2 + 1)" by (rule ucs_inj)
  then have "i1 + 1 = i2 + 1" by (rule str_nat_inj)
  moreover from r have "s1 @ ucs ''__'' @ d1 = s2 @ ucs ''__'' @ d2" by simp
  from device_suffix [OF this assms(2,3)] have "d1 = d2 \<and> s1 = s2" .
  ultimately show ?thesis by simp
qed

lemma not_startswith_slash:
  assumes "47 \<notin> set s"
  shows "\<not> startswith (s @ 95 # rest) (ucs ''/'')"
  using assms by (cases s) (auto simp: startswith_def)

lemma path_join_inj:
  assumes "\<not> startswith f1 (ucs ''/'')" "\<not> startswith f2 (ucs ''/'')"
  shows "path_join a f1 = path_join a f2 \<longleftrightarrow> f1 = f2"
  using assms by (simp add: path_join_def)

lemma lhr_path_unfold:
  assumes "d \<in> {ucs ''mobile'', ucs ''desktop''}" "i + 1 < 10 ^ 18"
  shows "lhr_path url out_dir d (run_id_of repeats i) =
     path_join out_dir
       (sanitize_filename url [] @ ucs ''__'' @ unique_id_of d (run_id_of repeats i)
          @ ucs ''.lhr.json'')"
  using unique_id_short [OF assms, of repeats]
  by (simp add: lhr_path_def Let_def sanitize_filename_def)

text \<open>
  What the suffix achieves: for the two devices and fewer than \<open>10^18\<close> repeats the
  paths of two tasks coincide only if device, repeat index and sanitised name do.
\<close>

lemma lhr_path_eq_iff:
  assumes "d1 \<in> {ucs ''mobile'', ucs ''desktop''}" "d2 \<in> {ucs ''mobile'', ucs ''desktop''}"
    and "i1 < nat repeats" "i2 < nat repeats" "repeats < 10 ^ 18"
  shows "lhr_path url1 out_dir d1 (run_id_of repeats i1)
       = lhr_path url2 out_dir d2 (run_id_of repeats i2)
     \<longleftrightarrow> sanitize_filename url1 [] = sanitize_filename url2 [] \<and> d1 = d2 \<and> i1 = i2"
proof -
  let ?s1 = "sanitize_filename url1 []" and ?s2 = "sanitize_filename url2 []"
  let ?u1 = "unique_id_of d1 (run_id_of repeats i1)"
  let ?u2 = "unique_id_of d2 (run_id_of repeats i2)"
  from assms(3,4,5) have small: "i1 + 1 < 10 ^ 18" "i2 + 1 < 10 ^ 18"
    by (simp_all add: nat_less_iff)
  have ns: "\<not> startswith (?s1 @ ucs ''__'' @ ?u1 @ ucs ''.lhr.json'') (ucs ''/'')"
    "\<not> startswith (?s2 @ ucs ''__'' @ ?u2 @ ucs ''.lhr.json'') (ucs ''/'')"
    using not_startswith_slash [OF sanitize_no_slash] by simp_all
  have "lhr_path url1 out_dir d1 (run_id_of repeats i1)
       = lhr_path url2 out_dir d2 (run_id_of repeats i2)
     \<longleftrightarrow> ?s1 @ ucs ''__'' @ ?u1 @ ucs ''.lhr.json'' = ?s2 @ ucs ''__'' @ ?u2 @ ucs ''.lhr.json''"
    by (simp only: lhr_path_unfold [OF assms(1) small(1)] lhr_path_unfold [OF assms(2) small(2)]
        path_join_inj [OF ns])
  also have "\<dots> \<longleftrightarrow> ?s1 @ ucs ''__'' @ ?u1 = ?s2 @ ucs ''__'' @ ?u2"
    by (metis append.assoc append_same_eq)
  also have "\<dots> \<longleftrightarrow> ?s1 = ?s2 \<and> d1 = d2 \<and> i1 = i2"
  proof
    assume "?s1 @ ucs ''__'' @ ?u1 = ?s2 @ ucs ''__'' @ ?u2"
    from unique_id_inj [OF this assms(1,2)]
    have *: "?s1 = ?s2" "d1 = d2" "1 < repeats \<longrightarrow> i1 = i2" by simp_all
    have "i1 = i2"
    proof (cases "1 < repeats")
      case True
      with *(3) show ?thesis by simp
    next
      case False
      with assms(3,4) show ?thesis by simp
    qed
    with * show "?s1 = ?s2 \<and> d1 = d2 \<and> i1 = i2" by simp
  next
    assume "?s1 = ?s2 \<and> d1 = d2 \<and> i1 = i2"
    then show "?s1 @ ucs ''__'' @ ?u1 = ?s2 @ ucs ''__'' @ ?u2" by simp
  qed
  finally show ?thesis .
qed

lemma length_failures_successes: "length (failures rs) + length (successes rs) = length rs"
  by (induction rs rule: failures.induct) simp_all

lemma repeat_loop_split:
  "repeat_loop once rounds st =
     (fst st @ successes (map once rounds), snd st @ failures (map once rounds))"
proof (induction rounds arbitrary: st)
  case Nil
  then show ?case by simp
next
  case (Cons i rounds)
  then show ?case by (cases "once i") simp_all
qed

lemma median_collect:
  "median (collect runs k) = Inr (median_over k runs)"
  by (simp add: collect_def median_over_def median_refines)

lemma run_url_repeats_all_failed:
  assumes "successes (outcomes url repeats out_dir device tool) = []"
  shows "\<exists>f. run_url_repeats url repeats out_dir device tool = Inr (AllFailed f)
     \<and> x_error f \<noteq> []
     \<and> x_allErrors f = failures (outcomes url repeats out_dir device tool)"
  using assms
  by (simp add: run_url_repeats_def repeat_loop_split Let_def outcomes_def)

lemma run_url_repeats_folded:
  assumes "successes (outcomes url repeats out_dir device tool) \<noteq> []"
  shows "\<exists>f. run_url_repeats url repeats out_dir device tool = Inr (Folded f)
     \<and> f_errors f = failures (outcomes url repeats out_dir device tool)
     \<and> perfScore (f_metrics f) = median_over perfScore (successes (outcomes url repeats out_dir device tool))
     \<and> m_lcp (f_metrics f) = median_over m_lcp (successes (outcomes url repeats out_dir device tool))
     \<and> m_inp (f_metrics f) = median_over m_inp (successes (outcomes url repeats out_dir device tool))
     \<and> m_cls (f_metrics f) = median_over m_cls (successes (outcomes url repeats out_dir device tool))
     \<and> m_tbt (f_metrics f) = median_over m_tbt (successes (outcomes url repeats out_dir device tool))
     \<and> m_fcp (f_metrics f) = median_over m_fcp (successes (outcomes url repeats out_dir device tool))
     \<and> m_ttfb (f_metrics f) = median_over m_ttfb (successes (outcomes url repeats out_dir device tool))"
proof -
  let ?runs = "successes (outcomes url repeats out_dir device tool)"
  from assms have "0 < int (length ?runs)" by simp
  then have first: "subscript ?runs 0 = Inr (?runs ! 0)"
    using subscript_in_range [of 0 ?runs] by simp
  have loop: "repeat_loop (\<lambda>i. lighthouse_once url out_dir device (run_id_of repeats i) (tool i))
      [0..<nat repeats] ([], []) = (?runs, failures (outcomes url repeats out_dir device tool))"
    by (simp add: repeat_loop_split outcomes_def)
  show ?thesis
    unfolding run_url_repeats_def Let_def loop fst_conv snd_conv
    using assms first by (simp add: median_collect)
qed

section \<open>Claims about report paths and repeated runs\<close>

text \<open>
  C9 fails on the code. The path of a report is a function of the output directory, the
  URL, the device and the run id, and the comments of \<open>lighthouse_once\<close> and
  \<open>run_url_repeats\<close> say that the suffix keeps one run from overwriting the file of
  another. Yet distinct tasks of one batch get one path: \<open>sanitize_filename\<close> removes
  the scheme, so \<open>http://a.example/x\<close> and \<open>https://a.example/x\<close>, on the same
  device and in the same repeat, both write \<open>/out/a.example_x__mobile__run1.lhr.json\<close>;
  it replaces every run of \<open>/ : ? & = #\<close> by one underscore, so \<open>a.example/x?y\<close>
  and \<open>a.example/x/y\<close> share a file; and it keeps the first 150 characters only, so
  two URLs of 151 characters that differ in the last one share a file. The suffix itself
  is cut to 30 characters.
\<close>

theorem report_paths_collide:
  "(ucs ''http://a.example/x'', ucs ''mobile'', 0::nat)
      \<noteq> (ucs ''https://a.example/x'', ucs ''mobile'', 0)
   \<and> lhr_path (ucs ''http://a.example/x'') (ucs ''/out'') (ucs ''mobile'') (run_id_of 3 0)
       = ucs ''/out/a.example_x__mobile__run1.lhr.json''
   \<and> lhr_path (ucs ''https://a.example/x'') (ucs ''/out'') (ucs ''mobile'') (run_id_of 3 0)
       = ucs ''/out/a.example_x__mobile__run1.lhr.json''
   \<and> ucs ''https://a.example/x?y'' \<noteq> ucs ''https://a.example/x/y''
   \<and> lhr_path (ucs ''https://a.example/x?y'') (ucs ''/out'') (ucs ''desktop'') (run_id_of 1 0)
       = ucs ''/out/a.example_x_y__desktop.lhr.json''
   \<and> lhr_path (ucs ''https://a.example/x/y'') (ucs ''/out'') (ucs ''desktop'') (run_id_of 1 0)
       = ucs ''/out/a.example_x_y__desktop.lhr.json''
   \<and> replicate 150 20013 @ ucs ''a'' \<noteq> replicate 150 20013 @ ucs ''b''
   \<and> lhr_path (replicate 150 20013 @ ucs ''a'') (ucs ''/out'') (ucs ''mobile'') (run_id_of 3 2)
       = ucs ''/out/'' @ replicate 150 20013 @ ucs ''__mobile__run3.lhr.json''
   \<and> lhr_path (replicate 150 20013 @ ucs ''b'') (ucs ''/out'') (ucs ''mobile'') (run_id_of 3 2)
       = ucs ''/out/'' @ replicate 150 20013 @ ucs ''__mobile__run3.lhr.json''
   \<and> sanitize_filename (ucs ''a'') (replicate 31 120) = ucs ''a__'' @ replicate 30 120"
proof -
  have plain: "squash False (replicate 150 20013 @ r) = replicate 150 20013 @ r"
    if "\<forall>c \<in> set r. \<not> special c" for r
    using that by (intro squash_plain) (auto simp: special_def)
  have cut: "sanitize_filename (replicate 150 20013 @ [of_char c]) u
      = replicate 150 20013 @ ucs ''__'' @ take 30 u"
    if "c \<in> {CHR ''a'', CHR ''b''}" "u \<noteq> []" for c u
    using that plain [of "ucs [c]"]
    by (auto simp: sanitize_filename_def strip_scheme_def startswith_def special_def)
  have long: "lhr_path (replicate 150 20013 @ ucs [c]) (ucs ''/out'') (ucs ''mobile'') (run_id_of 3 2)
      = ucs ''/out/'' @ replicate 150 20013 @ ucs ''__mobile__run3.lhr.json''"
    if "c \<in> {CHR ''a'', CHR ''b''}" for c
    using that
    by (simp add: lhr_path_def Let_def cut unique_id_of_def run_id_of_def path_join_def
        startswith_def endswith_def str_nat.simps digit_char_def)
  have short: "lhr_path (ucs ''http://a.example/x'') (ucs ''/out'') (ucs ''mobile'') (run_id_of 3 0)
       = ucs ''/out/a.example_x__mobile__run1.lhr.json''"
    "lhr_path (ucs ''https://a.example/x'') (ucs ''/out'') (ucs ''mobile'') (run_id_of 3 0)
       = ucs ''/out/a.example_x__mobile__run1.lhr.json''"
    "lhr_path (ucs ''https://a.example/x?y'') (ucs ''/out'') (ucs ''desktop'') (run_id_of 1 0)
       = ucs ''/out/a.example_x_y__desktop.lhr.json''"
    "lhr_path (ucs ''https://a.example/x/y'') (ucs ''/out'') (ucs ''desktop'') (run_id_of 1 0)
       = ucs ''/out/a.example_x_y__desktop.lhr.json''"
    by (simp_all add: lhr_path_def unique_id_of_def run_id_of_def sanitize_filename_def
        strip_scheme_def startswith_def special_def path_join_def endswith_def str_nat.simps
        digit_char_def)
  have suffix: "sanitize_filename (ucs ''a'') (replicate 31 120) = ucs ''a__'' @ replicate 30 120"
    by (simp add: sanitize_filename_def strip_scheme_def startswith_def special_def
        numeral_eq_Suc)
  have differ: "(ucs ''http://a.example/x'', ucs ''mobile'', 0::nat)
      \<noteq> (ucs ''https://a.example/x'', ucs ''mobile'', 0)"
    "ucs ''https://a.example/x?y'' \<noteq> ucs ''https://a.example/x/y''"
    "replicate 150 20013 @ ucs ''a'' \<noteq> replicate 150 (20013::nat) @ ucs ''b''"
    by simp_all
  from long [of "CHR ''a''"] long [of "CHR ''b''"] short suffix differ
  show ?thesis by (simp only: insertI1 insertI2 simp_thms)
qed

text \<open>
  C5. In a run of \<open>N\<close> repeats every round is made, whatever the rounds before it
  did; the error list holds the messages of the failed repeats, in order. When all \<open>N\<close>
  repeats fail the result is the all-failed variant, its error message is not empty and
  \<open>allErrors\<close> has exactly \<open>N\<close> entries. When \<open>k < N\<close> repeats fail the result is
  the folded variant: nothing is raised, each of its seven metrics is the median of that
  metric over the \<open>N - k\<close> successful repeats, and its error list has exactly \<open>k\<close>
  entries.
\<close>

theorem repeats_fold_or_fail:
  "length (outcomes url repeats out_dir device tool) = nat repeats
   \<and> (int (length (failures (outcomes url repeats out_dir device tool))) = repeats
      \<longrightarrow> (\<exists>f. run_url_repeats url repeats out_dir device tool = Inr (AllFailed f)
            \<and> x_error f \<noteq> []
            \<and> x_allErrors f = failures (outcomes url repeats out_dir device tool)
            \<and> int (length (x_allErrors f)) = repeats))
   \<and> (int (length (failures (outcomes url repeats out_dir device tool))) < repeats
      \<longrightarrow> (\<exists>f. run_url_repeats url repeats out_dir device tool = Inr (Folded f)
            \<and> f_errors f = failures (outcomes url repeats out_dir device tool)
            \<and> length (successes (outcomes url repeats out_dir device tool))
                = nat repeats - length (f_errors f)
            \<and> perfScore (f_metrics f)
                = median_over perfScore (successes (outcomes url repeats out_dir device tool))
            \<and> m_lcp (f_metrics f)
                = median_over m_lcp (successes (outcomes url repeats out_dir device tool))
            \<and> m_inp (f_metrics f)
                = median_over m_inp (successes (outcomes url repeats out_dir device tool))
            \<and> m_cls (f_metrics f)
                = median_over m_cls (successes (outcomes url repeats out_dir device tool))
            \<and> m_tbt (f_metrics f)
                = median_over m_tbt (successes (outcomes url repeats out_dir device tool))
            \<and> m_fcp (f_metrics f)
                = median_over m_fcp (successes (outcomes url repeats out_dir device tool))
            \<and> m_ttfb (f_metrics f)
                = median_over m_ttfb (successes (outcomes url repeats out_dir device tool))))"
proof -
  let ?outs = "outcomes url repeats out_dir device tool"
  have len: "length ?outs = nat repeats" by (simp add: outcomes_def)
  have split: "length (failures ?outs) + length (successes ?outs) = nat repeats"
    using length_failures_successes [of ?outs] len by simp
  have all_failed: "\<exists>f. run_url_repeats url repeats out_dir device tool = Inr (AllFailed f)
      \<and> x_error f \<noteq> [] \<and> x_allErrors f = failures ?outs \<and> int (length (x_allErrors f)) = repeats"
    if k: "int (length (failures ?outs)) = repeats"
  proof -
    from k split have "length (successes ?outs) = 0" by linarith
    then have "successes ?outs = []" by simp
    from run_url_repeats_all_failed [OF this] k show ?thesis by auto
  qed
  have folded: "\<exists>f. run_url_repeats url repeats out_dir device tool = Inr (Folded f)
      \<and> f_errors f = failures ?outs
      \<and> length (successes ?outs) = nat repeats - length (f_errors f)
      \<and> perfScore (f_metrics f) = median_over perfScore (successes ?outs)
      \<and> m_lcp (f_metrics f) = median_over m_lcp (successes ?outs)
      \<and> m_inp (f_metrics f) = median_over m_inp (successes ?outs)
      \<and> m_cls (f_metrics f) = median_over m_cls (successes ?outs)
      \<and> m_tbt (f_metrics f) = median_over m_tbt (successes ?outs)
      \<and> m_fcp (f_metrics f) = median_over m_fcp (successes ?outs)
      \<and> m_ttfb (f_metrics f) = median_over m_ttfb (successes ?outs)"
    if k: "int (length (failures ?outs)) < repeats"
  proof -
    from k split have "0 < length (successes ?outs)" by linarith
    then have "successes ?outs \<noteq> []" by simp
    from run_url_repeats_folded [OF this] obtain f where
      f: "run_url_repeats url repeats out_dir device tool = Inr (Folded f)"
        "f_errors f = failures ?outs"
        "perfScore (f_metrics f) = median_over perfScore (successes ?outs)"
        "m_lcp (f_metrics f) = median_over m_lcp (successes ?outs)"
        "m_inp (f_metrics f) = median_over m_inp (successes ?outs)"
        "m_cls (f_metrics f) = median_over m_cls (successes ?outs)"
        "m_tbt (f_metrics f) = median_over m_tbt (successes ?outs)"
        "m_fcp (f_metrics f) = median_over m_fcp (successes ?outs)"
        "m_ttfb (f_metrics f) = median_over m_ttfb (successes ?outs)"
      by blast
    from split have "length (successes ?outs) = nat repeats - length (failures ?outs)" by linarith
    with f(2) have "length (successes ?outs) = nat repeats - length (f_errors f)" by simp
    with f show ?thesis by blast
  qed
  from len all_failed folded show ?thesis by blast
qed

theorem repeats_fold_or_fail_witness:
  "int (length (failures (outcomes (ucs ''https://a.example/x'') 3 (ucs ''/out'') (ucs ''mobile'') second_fails))) < 3
   \<and> (\<exists>f. run_url_repeats (ucs ''https://a.example/x'') 3 (ucs ''/out'') (ucs ''mobile'') second_fails = Inr (Folded f)
        \<and> f_errors f = [''timeout''] \<and> m_lcp (f_metrics f) = Some 4000)
   \<and> int (length (failures (outcomes (ucs ''https://a.example/x'') 3 (ucs ''/out'') (ucs ''mobile'') all_fail))) = 3
   \<and> (\<exists>f. run_url_repeats (ucs ''https://a.example/x'') 3 (ucs ''/out'') (ucs ''mobile'') all_fail = Inr (AllFailed f)
        \<and> x_error f \<noteq> [] \<and> length (x_allErrors f) = 3)"
proof -
  let ?some = "outcomes (ucs ''https://a.example/x'') 3 (ucs ''/out'') (ucs ''mobile'') second_fails"
  let ?none = "outcomes (ucs ''https://a.example/x'') 3 (ucs ''/out'') (ucs ''mobile'') all_fail"
  have rounds: "[0..<3] = [0::nat, 1, 2]"
    by (simp add: upt_rec)
  have ok1: "\<exists>m. extract_metrics (lcp_report 3000) = Inr m \<and> m_lcp m = Some 3000"
    by (simp add: extract_metrics_def lcp_report_def audit_numeric_def audit_items_def
        audit_or_empty_def or_dict_def or_list_def py_or_def dict_get_def too_large_def)
  have ok2: "\<exists>m. extract_metrics (lcp_report 5000) = Inr m \<and> m_lcp m = Some 5000"
    by (simp add: extract_metrics_def lcp_report_def audit_numeric_def audit_items_def
        audit_or_empty_def or_dict_def or_list_def py_or_def dict_get_def too_large_def)
  from ok1 ok2 have some_f: "failures ?some = [''timeout'']"
    and some_s: "map (\<lambda>r. m_lcp (r_metrics r)) (successes ?some) = [Some 3000, Some 5000]"
    by (auto simp: outcomes_def rounds second_fails_def lighthouse_once_def)
  have none_f: "failures ?none = replicate 3 ''Command not found: lighthouse''"
    by (simp add: outcomes_def rounds all_fail_def lighthouse_once_def numeral_3_eq_3)
  have med: "median_over m_lcp (successes ?some) = Some 4000"
    unfolding median_over_def some_s by (simp add: available_def median_spec_def)
  from repeats_fold_or_fail [of "ucs ''https://a.example/x''" 3 "ucs ''/out''" "ucs ''mobile''" second_fails]
    repeats_fold_or_fail [of "ucs ''https://a.example/x''" 3 "ucs ''/out''" "ucs ''mobile''" all_fail]
    some_f none_f med
  show ?thesis by auto
qed

end
